theory Spec2Isabelle
  imports Complex_Main "HOL-Library.AList"
begin

text \<open>
  The decision pipeline of the email agent: the rule engine (\<open>src/rule_engine.py\<close>),
  the safety layer with its confidence thresholds and its hourly rate limit
  (\<open>src/safety_layer.py\<close>), and the loop of the orchestrator that turns the actions
  of the matching rules into calls of the mail client (\<open>src/main.py\<close>). Mode names,
  action types and the entries of \<open>executed_actions\<close> are the strings of the source.
  What the code mutates is passed in and returned; the clock, the file system and the
  mail client appear as the outcomes they give; logging is left out.
\<close>

section \<open>Data model\<close>

subsection \<open>Python floats and their comparisons\<close>

text \<open>
  A confidence score and the two thresholds are Python floats. A finite double is the
  real number it denotes, and the order of finite doubles is the order of the reals;
  \<open>NaN\<close> compares false with everything, itself included, under \<open>>=\<close> and
  \<open><\<close>. The infinities are left out.
\<close>

datatype pyfloat = NaN | Fin real

text \<open>Python's \<open>a >= b\<close> on floats.\<close>

fun fge :: "pyfloat \<Rightarrow> pyfloat \<Rightarrow> bool" where
  "fge (Fin a) (Fin b) = (b \<le> a)"
| "fge _ _ = False"

text \<open>Python's \<open>a < b\<close> on floats.\<close>

fun flt :: "pyfloat \<Rightarrow> pyfloat \<Rightarrow> bool" where
  "flt (Fin a) (Fin b) = (a < b)"
| "flt _ _ = False"

subsection \<open>Configuration (\<open>config_manager.py\<close>)\<close>

text \<open>
  \<open>RateLimitConfig\<close> and \<open>SafetyConfig\<close>, with the fields the safety layer and the
  orchestrator read. \<open>max_emails_per_hour\<close> is a Python int, so it may be zero or
  negative. Nothing validates the order of the two thresholds.
\<close>

record rate_limit_config =
  enabled :: bool
  max_emails_per_hour :: int

record safety_config =
  min_confidence_for_auto_action :: pyfloat
  min_confidence_for_draft :: pyfloat
  rate_limit :: rate_limit_config
  human_in_the_loop_label :: string

subsection \<open>The safety layer's state (\<open>safety_layer.py\<close>)\<close>

text \<open>
  A timestamp is a naive \<open>datetime\<close>, counted in microseconds (the resolution of
  \<open>datetime\<close>).
\<close>

type_synonym timestamp = int

text \<open>\<open>timedelta(hours=1)\<close> in microseconds.\<close>

definition one_hour :: int where
  "one_hour = 3600000000"

text \<open>
  What \<open>json.load\<close> returns, and so what \<open>self.state\<close> may be: any JSON value. A
  \<open>JDict\<close> lists the entries of a Python dict in their order; its keys are distinct.
\<close>

datatype json =
  JNull
| JBool bool
| JNum real
| JStr string
| JList "json list"
| JDict "(string \<times> json) list"

text \<open>
  What \<open>datetime.fromisoformat\<close> makes of a string: it raises \<open>ValueError\<close>, or gives
  a \<open>datetime\<close> with a time zone (whose comparison with the naive \<open>one_hour_ago\<close>
  raises \<open>TypeError\<close>), or gives a naive \<open>datetime\<close>. The library function itself is a
  parameter of what follows, and so is \<open>isoformat\<close>.
\<close>

datatype iso = NotIso | Aware | Naive timestamp

text \<open>
  What \<open>_load_state\<close> finds under the name \<open>safety_state.json\<close>: no file, a file
  whose \<open>open\<close> or \<open>json.load\<close> raises, or a file that parses, to whatever value.
\<close>

datatype disk_file = NoFile | LoadRaises | Parses json

text \<open>
  What happens to a write in \<open>_save_state\<close>: it goes through, \<open>open\<close> raises (the
  file stays as it was), or \<open>json.dump\<close> raises after \<open>open\<close> has truncated the file
  (a proper prefix of a JSON object is not JSON, so the file no longer loads).
\<close>

datatype write_outcome = Written | OpenFails | DumpFails

text \<open>The safety layer: \<open>self.state\<close> and the file named by \<open>self.state_file\<close>.\<close>

record json_layer =
  jstate :: json
  jfile :: disk_file

datatype py_error = KeyError | AttributeError | TypeError | ValueError | TransportError

subsection \<open>A well-formed state\<close>

text \<open>
  The state as the program itself writes it: a dict whose entry \<open>"sent_log"\<close>, when
  present, is a list of the texts \<open>isoformat()\<close> gives for naive timestamps.
  \<open>fromisoformat\<close> reads such a text back to the same \<open>datetime\<close>, so a well-formed log
  is modelled as the list of the timestamps themselves, and the file that holds a
  well-formed state as \<open>Holds\<close> of it.
\<close>

type_synonym state_dict = "string \<rightharpoonup> timestamp list"

datatype state_file = Missing | Unreadable | Holds state_dict

record safety_layer =
  state :: state_dict
  state_file :: state_file

section \<open>The safety layer on whatever the state file holds\<close>

text \<open>\<open>{"sent_log": []}\<close>.\<close>

definition empty_state :: json where
  "empty_state = JDict [(''sent_log'', JList [])]"

text \<open>
  \<open>_load_state\<close>: the bare \<open>except:\<close> catches whatever \<open>open\<close> and \<open>json.load\<close>
  raise; a file that parses becomes the state as it is.
\<close>

definition load_state :: "disk_file \<Rightarrow> json" where
  "load_state f =
     (case f of
        Parses j \<Rightarrow> j
      | LoadRaises \<Rightarrow> empty_state
      | NoFile \<Rightarrow> empty_state)"

text \<open>\<open>SafetyLayer.__init__\<close>.\<close>

definition init_json_layer :: "disk_file \<Rightarrow> json_layer" where
  "init_json_layer f = \<lparr>jstate = load_state f, jfile = f\<rparr>"

text \<open>\<open>_save_state\<close>: a failure is logged and swallowed.\<close>

definition save_state_json :: "write_outcome \<Rightarrow> json_layer \<Rightarrow> json_layer" where
  "save_state_json wr l =
     (case wr of
        Written \<Rightarrow> l\<lparr>jfile := Parses (jstate l)\<rparr>
      | OpenFails \<Rightarrow> l
      | DumpFails \<Rightarrow> l\<lparr>jfile := LoadRaises\<rparr>)"

text \<open>
  What \<open>for ts in v\<close> goes through: the elements of a list, the characters of a string
  (each a string of one character; a \<open>char\<close> here is a byte, which is Python's
  character for ASCII text), the keys of a dict; anything else is not iterable.
\<close>

definition iterate :: "json \<Rightarrow> py_error + json list" where
  "iterate v =
     (case v of
        JList xs \<Rightarrow> Inr xs
      | JStr s \<Rightarrow> Inr (map (\<lambda>c. JStr [c]) s)
      | JDict kvs \<Rightarrow> Inr (map (\<lambda>kv. JStr (fst kv)) kvs)
      | _ \<Rightarrow> Inl TypeError)"

text \<open>
  The comprehension \<open>[ts for ts in ... if datetime.fromisoformat(ts) > one_hour_ago]\<close>:
  \<open>fromisoformat\<close> raises \<open>TypeError\<close> on what is not a string, and the first
  exception ends the comprehension.
\<close>

fun keep_recent :: "(string \<Rightarrow> iso) \<Rightarrow> timestamp \<Rightarrow> json list \<Rightarrow> py_error + json list" where
  "keep_recent fromisoformat one_hour_ago [] = Inr []"
| "keep_recent fromisoformat one_hour_ago (ts # rest) =
     (case ts of
        JStr s \<Rightarrow>
          (case fromisoformat s of
             NotIso \<Rightarrow> Inl ValueError
           | Aware \<Rightarrow> Inl TypeError
           | Naive t \<Rightarrow>
               (case keep_recent fromisoformat one_hour_ago rest of
                  Inl err \<Rightarrow> Inl err
                | Inr kept \<Rightarrow> Inr (if t > one_hour_ago then ts # kept else kept)))
      | _ \<Rightarrow> Inl TypeError)"

text \<open>
  \<open>check_rate_limit\<close> on any state, given the reading \<open>now\<close> of the clock and the
  outcome \<open>wr\<close> of the write: \<open>self.state.get\<close> raises \<open>AttributeError\<close> on what is
  not a dict; \<open>self.state["sent_log"] = valid_logs\<close> replaces the entry or adds it.
\<close>

definition check_rate_limit_json ::
  "(string \<Rightarrow> iso) \<Rightarrow> safety_config \<Rightarrow> timestamp \<Rightarrow> write_outcome \<Rightarrow> json_layer
     \<Rightarrow> py_error + bool \<times> json_layer" where
  "check_rate_limit_json fromisoformat config now wr l =
     (if \<not> enabled (rate_limit config) then Inr (True, l)
      else
        (case jstate l of
           JDict kvs \<Rightarrow>
             (case iterate (case map_of kvs ''sent_log'' of None \<Rightarrow> JList [] | Some v \<Rightarrow> v) of
                Inl err \<Rightarrow> Inl err
              | Inr items \<Rightarrow>
                  (case keep_recent fromisoformat (now - one_hour) items of
                     Inl err \<Rightarrow> Inl err
                   | Inr valid_logs \<Rightarrow>
                       (let limit = max_emails_per_hour (rate_limit config);
                            l1 = l\<lparr>jstate := JDict (AList.update ''sent_log'' (JList valid_logs) kvs)\<rparr>;
                            l2 = save_state_json wr l1
                        in if int (length valid_logs) \<ge> limit then Inr (False, l2)
                           else Inr (True, l2))))
         | _ \<Rightarrow> Inl AttributeError))"

text \<open>
  \<open>record_action\<close> on any state: \<open>self.state["sent_log"]\<close> raises \<open>TypeError\<close> on what
  is not a dict and \<open>KeyError\<close> on a dict without the key; \<open>.append\<close> raises
  \<open>AttributeError\<close> on what is not a list.
\<close>

definition record_action_json ::
  "(timestamp \<Rightarrow> string) \<Rightarrow> timestamp \<Rightarrow> write_outcome \<Rightarrow> json_layer \<Rightarrow> py_error + json_layer" where
  "record_action_json isoformat now wr l =
     (case jstate l of
        JDict kvs \<Rightarrow>
          (case map_of kvs ''sent_log'' of
             None \<Rightarrow> Inl KeyError
           | Some (JList xs) \<Rightarrow>
               Inr (save_state_json wr
                      (l\<lparr>jstate := JDict (AList.update ''sent_log''
                                            (JList (xs @ [JStr (isoformat now)])) kvs)\<rparr>))
           | Some _ \<Rightarrow> Inl AttributeError)
      | _ \<Rightarrow> Inl TypeError)"

section \<open>The safety layer on a well-formed state\<close>

text \<open>
  From here on the state is well formed, and stays so: the functions below are those
  above on such a state, where none of the type and value errors can arise (lemmas
  \<open>init_layers\<close>, \<open>check_rate_limit_layers\<close> and \<open>record_action_layers\<close>).
\<close>

definition empty_log :: state_dict where
  "empty_log = [''sent_log'' \<mapsto> []]"

text \<open>
  \<open>SafetyLayer.__init__\<close> with \<open>_load_state\<close>, for a file that is missing, that does
  not load, or that holds a well-formed state.
\<close>

definition init_safety_layer :: "state_file \<Rightarrow> safety_layer" where
  "init_safety_layer f =
     \<lparr>state = (case f of Holds s \<Rightarrow> s | Unreadable \<Rightarrow> empty_log | Missing \<Rightarrow> empty_log),
      state_file = f\<rparr>"

text \<open>\<open>_save_state\<close>: a failure is logged and swallowed.\<close>

definition save_state :: "write_outcome \<Rightarrow> safety_layer \<Rightarrow> safety_layer" where
  "save_state wr sl =
     (case wr of
        Written \<Rightarrow> sl\<lparr>state_file := Holds (state sl)\<rparr>
      | OpenFails \<Rightarrow> sl
      | DumpFails \<Rightarrow> sl\<lparr>state_file := Unreadable\<rparr>)"

text \<open>\<open>self.state.get("sent_log", [])\<close>.\<close>

definition get_sent_log :: "state_dict \<Rightarrow> timestamp list" where
  "get_sent_log st = (case st ''sent_log'' of None \<Rightarrow> [] | Some l \<Rightarrow> l)"

text \<open>
  \<open>check_rate_limit\<close>, given the reading \<open>now\<close> of the clock and the outcome \<open>wr\<close>
  of the write; neither is used when rate limiting is disabled.
\<close>

definition check_rate_limit ::
  "safety_config \<Rightarrow> timestamp \<Rightarrow> write_outcome \<Rightarrow> safety_layer \<Rightarrow> bool \<times> safety_layer" where
  "check_rate_limit config now wr sl =
     (if \<not> enabled (rate_limit config) then (True, sl)
      else
        (let limit = max_emails_per_hour (rate_limit config);
             one_hour_ago = now - one_hour;
             valid_logs = filter (\<lambda>ts. ts > one_hour_ago) (get_sent_log (state sl));
             sl1 = sl\<lparr>state := (state sl)(''sent_log'' \<mapsto> valid_logs)\<rparr>;
             sl2 = save_state wr sl1
         in if int (length valid_logs) \<ge> limit then (False, sl2) else (True, sl2)))"

text \<open>
  \<open>record_action\<close>: \<open>self.state["sent_log"]\<close> raises \<open>KeyError\<close> when the key is
  absent.
\<close>

definition record_action ::
  "timestamp \<Rightarrow> write_outcome \<Rightarrow> safety_layer \<Rightarrow> py_error + safety_layer" where
  "record_action now wr sl =
     (case state sl ''sent_log'' of
        None \<Rightarrow> Inl KeyError
      | Some l \<Rightarrow> Inr (save_state wr (sl\<lparr>state := (state sl)(''sent_log'' \<mapsto> l @ [now])\<rparr>)))"

text \<open>\<open>determine_execution_mode\<close>.\<close>

definition determine_execution_mode :: "safety_config \<Rightarrow> pyfloat \<Rightarrow> string" where
  "determine_execution_mode config confidence =
     (if fge confidence (min_confidence_for_auto_action config) then ''send''
      else if fge confidence (min_confidence_for_draft config) then ''draft''
      else ''manual'')"

text \<open>
  The second step of \<open>validate_action\<close>, the confidence check: a proposed \<open>send\<close> is
  downgraded to \<open>safe_mode\<close> when that is not \<open>send\<close>; anything else is returned as
  proposed.
\<close>

definition check_confidence :: "safety_config \<Rightarrow> string \<Rightarrow> pyfloat \<Rightarrow> string" where
  "check_confidence config proposed_mode confidence =
     (let safe_mode = determine_execution_mode config confidence
      in if proposed_mode = ''send'' \<and> safe_mode \<noteq> ''send'' then safe_mode
         else proposed_mode)"

text \<open>
  \<open>validate_action\<close>, with the clock reading and write outcome its call of
  \<open>check_rate_limit\<close> meets: the rate-limit check for a proposed \<open>send\<close>, with the
  early return of \<open>draft\<close>, then the confidence check.
\<close>

definition validate_action ::
  "safety_config \<Rightarrow> timestamp \<Rightarrow> write_outcome \<Rightarrow> string \<Rightarrow> pyfloat \<Rightarrow> safety_layer
     \<Rightarrow> string \<times> safety_layer" where
  "validate_action config now wr proposed_mode confidence sl =
     (if proposed_mode = ''send'' then
        (case check_rate_limit config now wr sl of
           (allowed, sl1) \<Rightarrow>
             if \<not> allowed then (''draft'', sl1)
             else (check_confidence config proposed_mode confidence, sl1))
      else (check_confidence config proposed_mode confidence, sl))"

subsection \<open>Well-formed states among all states\<close>

text \<open>The timestamps a list of JSON values stands for, when each is the text of a naive one.\<close>

fun stamps :: "(string \<Rightarrow> iso) \<Rightarrow> json list \<Rightarrow> timestamp list option" where
  "stamps fromisoformat [] = Some []"
| "stamps fromisoformat (x # xs) =
     (case x of
        JStr s \<Rightarrow>
          (case fromisoformat s of
             Naive t \<Rightarrow> map_option ((#) t) (stamps fromisoformat xs)
           | _ \<Rightarrow> None)
      | _ \<Rightarrow> None)"

text \<open>
  The JSON value \<open>j\<close> is the well-formed state \<open>d\<close>, as far as the entry \<open>"sent_log"\<close>
  goes, the only one the code reads or writes.
\<close>

definition holds_state :: "(string \<Rightarrow> iso) \<Rightarrow> json \<Rightarrow> state_dict \<Rightarrow> bool" where
  "holds_state fromisoformat j d =
     (case j of
        JDict kvs \<Rightarrow>
          (case map_of kvs ''sent_log'' of
             None \<Rightarrow> d ''sent_log'' = None
           | Some (JList xs) \<Rightarrow>
               stamps fromisoformat xs \<noteq> None \<and> d ''sent_log'' = stamps fromisoformat xs
           | Some _ \<Rightarrow> False)
      | _ \<Rightarrow> False)"

definition holds_file :: "(string \<Rightarrow> iso) \<Rightarrow> disk_file \<Rightarrow> state_file \<Rightarrow> bool" where
  "holds_file fromisoformat f tf =
     (case f of
        NoFile \<Rightarrow> tf = Missing
      | LoadRaises \<Rightarrow> tf = Unreadable
      | Parses j \<Rightarrow> (case tf of Holds d \<Rightarrow> holds_state fromisoformat j d | _ \<Rightarrow> False))"

definition holds_layer :: "(string \<Rightarrow> iso) \<Rightarrow> json_layer \<Rightarrow> safety_layer \<Rightarrow> bool" where
  "holds_layer fromisoformat l sl =
     (holds_state fromisoformat (jstate l) (state sl)
      \<and> holds_file fromisoformat (jfile l) (state_file sl))"

section \<open>The rule engine (\<open>rule_engine.py\<close>)\<close>

text \<open>
  A field of the analysis that a rule can name holds a string or \<open>None\<close>; so does the
  expected value in a rule's condition.
\<close>

datatype pyval = PNone | PStr string

type_synonym pydict = "string \<rightharpoonup> pyval"

text \<open>\<open>d.get(k)\<close>: \<open>None\<close> for an absent key.\<close>

definition dict_get :: "pydict \<Rightarrow> string \<Rightarrow> pyval" where
  "dict_get d k = (case d k of None \<Rightarrow> PNone | Some v \<Rightarrow> v)"

text \<open>
  An action as the orchestrator reads it: the dict \<open>ActionConfig.model_dump()\<close> gives,
  or a plain dict read with \<open>.get\<close> (an absent key reads as \<open>None\<close>).
\<close>

record action =
  action_type :: string
  action_value :: "string option"
  action_template :: "string option"

text \<open>
  A rule is a \<open>RuleConfig\<close> object (name, condition, actions) or a plain dict, whose
  keys \<open>name\<close>, \<open>condition\<close> and \<open>actions\<close> may be absent.
\<close>

datatype rule =
  RuleConfig string pydict "action list"
| RuleDict "string option" "pydict option" "action list option"

text \<open>
  The two branches of \<open>hasattr(rule, 'condition')\<close>: the attributes of the object, or
  \<open>rule.get("condition", {})\<close> and \<open>rule.get("actions", [])\<close>.
\<close>

fun rule_condition :: "rule \<Rightarrow> pydict" where
  "rule_condition (RuleConfig n c a) = c"
| "rule_condition (RuleDict n c a) = (case c of None \<Rightarrow> Map.empty | Some c' \<Rightarrow> c')"

fun rule_actions :: "rule \<Rightarrow> action list" where
  "rule_actions (RuleConfig n c a) = a"
| "rule_actions (RuleDict n c a) = (case a of None \<Rightarrow> [] | Some a' \<Rightarrow> a')"

text \<open>
  The two tests on \<open>match\<close>: \<open>"intent" in condition and condition["intent"] != intent\<close>,
  and the same for \<open>priority\<close>.
\<close>

definition rule_match :: "pydict \<Rightarrow> pyval \<Rightarrow> pyval \<Rightarrow> bool" where
  "rule_match condition intent priority =
     (let match = True;
          match = (if (case condition ''intent'' of None \<Rightarrow> False | Some v \<Rightarrow> v \<noteq> intent)
                   then False else match);
          match = (if (case condition ''priority'' of None \<Rightarrow> False | Some v \<Rightarrow> v \<noteq> priority)
                   then False else match)
      in match)"

text \<open>The \<open>for rule in self.rules\<close> loop, with \<open>matched_actions\<close> as accumulator.\<close>

fun evaluate_loop :: "rule list \<Rightarrow> pyval \<Rightarrow> pyval \<Rightarrow> action list \<Rightarrow> action list" where
  "evaluate_loop [] intent priority matched_actions = matched_actions"
| "evaluate_loop (r # rules) intent priority matched_actions =
     (if rule_match (rule_condition r) intent priority
      then evaluate_loop rules intent priority (matched_actions @ rule_actions r)
      else evaluate_loop rules intent priority matched_actions)"

definition evaluate :: "rule list \<Rightarrow> pydict \<Rightarrow> action list" where
  "evaluate rules analysis =
     evaluate_loop rules (dict_get analysis ''intent'') (dict_get analysis ''priority'') []"

text \<open>
  The matching rule in the words of the specification: every field named in the
  condition equals the corresponding field of the classification.
\<close>

definition spec_matches :: "pydict \<Rightarrow> pydict \<Rightarrow> bool" where
  "spec_matches condition classification =
     (\<forall>k \<in> dom condition. condition k = Some (dict_get classification k))"

definition spec_evaluate :: "rule list \<Rightarrow> pydict \<Rightarrow> action list" where
  "spec_evaluate rules classification =
     concat (map rule_actions (filter (\<lambda>r. spec_matches (rule_condition r) classification) rules))"

section \<open>The orchestrator's loop over one email (\<open>main.py\<close>)\<close>

text \<open>
  The analysis dict: its string-valued entries, and \<open>confidence_score\<close>, a float that
  may be absent.
\<close>

record analysis =
  entries :: pydict
  confidence_score :: "pyfloat option"

text \<open>The entries of \<open>email_data\<close> that the loop reads; \<open>uid\<close> is the entry \<open>"id"\<close>.\<close>

record email =
  uid :: string
  message_id :: string
  subject :: string
  sender :: string
  references :: string

text \<open>
  The calls the loop makes on its collaborators, in order: \<open>gmail_client.send_email\<close>
  (to, subject, body, reference message id, reference chain, mode),
  \<open>gmail_client.add_label\<close>, \<open>gmail_client.archive_email\<close> and
  \<open>safety_layer.record_action\<close>.
\<close>

datatype call =
  SendEmail string string string string string string
| AddLabel string "string option"
| ArchiveEmail string
| RecordAction

text \<open>
  What a call of the mail client does: \<open>send_email\<close> returns \<open>True\<close>, returns
  \<open>False\<close>, or raises (the connection cannot be made); \<open>add_label\<close> and
  \<open>archive_email\<close> return nothing and swallow their own failures, or raise likewise.
\<close>

datatype transport_outcome = Succeeds | Fails | Raises

text \<open>What the outside world does while one action is handled.\<close>

record env =
  check_now :: timestamp
  check_write :: write_outcome
  transport :: transport_outcome
  record_now :: timestamp
  record_write :: write_outcome

record world =
  safety :: safety_layer
  calls :: "call list"
  executed_actions :: "string list"

datatype status = Completed | Raised py_error

text \<open>An optional string inside an f-string.\<close>

definition fmt :: "string option \<Rightarrow> string" where
  "fmt v = (case v of None \<Rightarrow> ''None'' | Some s \<Rightarrow> s)"

text \<open>\<open>analysis.get("confidence_score", 0.0)\<close>.\<close>

definition confidence_of :: "analysis \<Rightarrow> pyfloat" where
  "confidence_of an = (case confidence_score an of None \<Rightarrow> Fin 0 | Some c \<Rightarrow> c)"

text \<open>\<open>analysis.get("suggested_response", "")\<close>.\<close>

definition suggested_response :: "analysis \<Rightarrow> pyval" where
  "suggested_response an =
     (case entries an ''suggested_response'' of None \<Rightarrow> PStr [] | Some v \<Rightarrow> v)"

text \<open>
  The live branch of a reply: the empty-response check, \<open>send_email\<close>, and
  \<open>record_action\<close> after a successful send.
\<close>

definition send_reply :: "email \<Rightarrow> analysis \<Rightarrow> string \<Rightarrow> env \<Rightarrow> world \<Rightarrow> status \<times> world" where
  "send_reply email_data an safe_mode e w =
     (case suggested_response an of
        PNone \<Rightarrow> (Completed, w)
      | PStr response_text \<Rightarrow>
          if response_text = [] then (Completed, w)
          else
            (let w1 = w\<lparr>calls := calls w @
                        [SendEmail (sender email_data) (''Re: '' @ subject email_data) response_text
                           (message_id email_data) (references email_data) safe_mode]\<rparr>
             in case transport e of
                  Raises \<Rightarrow> (Raised TransportError, w1)
                | Fails \<Rightarrow> (Completed, w1)
                | Succeeds \<Rightarrow>
                    (let w2 = w1\<lparr>executed_actions := executed_actions w1 @ [safe_mode]\<rparr>
                     in if safe_mode = ''send'' then
                          (let w3 = w2\<lparr>calls := calls w2 @ [RecordAction]\<rparr>
                           in case record_action (record_now e) (record_write e) (safety w3) of
                                Inl err \<Rightarrow> (Raised err, w3)
                              | Inr sl \<Rightarrow> (Completed, w3\<lparr>safety := sl\<rparr>))
                        else (Completed, w2))))"

text \<open>The body of \<open>for action in rule_actions\<close>.\<close>

definition handle_action ::
  "safety_config \<Rightarrow> bool \<Rightarrow> email \<Rightarrow> analysis \<Rightarrow> pyfloat \<Rightarrow> action \<Rightarrow> env \<Rightarrow> world
     \<Rightarrow> status \<times> world" where
  "handle_action config dry_run email_data an confidence a e w =
     (let act_type = action_type a in
      if act_type = ''draft_reply'' \<or> act_type = ''reply'' then
        (let mode = (if act_type = ''draft_reply'' then ''draft'' else ''send'');
             (safe_mode, sl) =
               validate_action config (check_now e) (check_write e) mode confidence (safety w);
             w1 = w\<lparr>safety := sl\<rparr>
         in if safe_mode \<noteq> ''manual'' then
              (if dry_run then
                 (Completed, w1\<lparr>executed_actions := executed_actions w1 @ [''DRY_RUN_'' @ safe_mode]\<rparr>)
               else send_reply email_data an safe_mode e w1)
            else (Completed, w1))
      else if act_type = ''label'' then
        (let label_val = action_value a
         in if dry_run then
              (Completed,
               w\<lparr>executed_actions := executed_actions w @ [''DRY_RUN_LABEL_'' @ fmt label_val]\<rparr>)
            else
              (let w1 = w\<lparr>calls := calls w @ [AddLabel (uid email_data) label_val]\<rparr>
               in case transport e of
                    Raises \<Rightarrow> (Raised TransportError, w1)
                  | _ \<Rightarrow>
                      (Completed,
                       w1\<lparr>executed_actions := executed_actions w1 @ [''LABEL_'' @ fmt label_val]\<rparr>)))
      else if act_type = ''archive'' then
        (if dry_run then
           (Completed, w\<lparr>executed_actions := executed_actions w @ [''DRY_RUN_ARCHIVE'']\<rparr>)
         else
           (let w1 = w\<lparr>calls := calls w @ [ArchiveEmail (uid email_data)]\<rparr>
            in case transport e of
                 Raises \<Rightarrow> (Raised TransportError, w1)
               | _ \<Rightarrow> (Completed, w1\<lparr>executed_actions := executed_actions w1 @ [''ARCHIVE'']\<rparr>)))
      else (Completed, w))"

text \<open>
  The loop over \<open>rule_actions\<close>; \<open>envs i\<close> is what the world does during the action at
  position \<open>i\<close>. An exception leaves the loop.
\<close>

fun process_actions ::
  "safety_config \<Rightarrow> bool \<Rightarrow> email \<Rightarrow> analysis \<Rightarrow> pyfloat \<Rightarrow> (nat \<Rightarrow> env) \<Rightarrow> nat \<Rightarrow> action list
     \<Rightarrow> world \<Rightarrow> status \<times> world" where
  "process_actions config dry_run email_data an confidence envs i [] w = (Completed, w)"
| "process_actions config dry_run email_data an confidence envs i (a # rest) w =
     (case handle_action config dry_run email_data an confidence a (envs i) w of
        (Completed, w') \<Rightarrow>
          process_actions config dry_run email_data an confidence envs (Suc i) rest w'
      | (Raised err, w') \<Rightarrow> (Raised err, w'))"

text \<open>
  The fallback for low confidence after the loop; \<open>fe\<close> is what the world does during
  its \<open>add_label\<close>.
\<close>

definition fallback :: "safety_config \<Rightarrow> bool \<Rightarrow> email \<Rightarrow> pyfloat \<Rightarrow> env \<Rightarrow> world \<Rightarrow> status \<times> world" where
  "fallback config dry_run email_data confidence fe w =
     (if flt confidence (min_confidence_for_draft config) \<and> executed_actions w = [] then
        (let review_label = human_in_the_loop_label config
         in if \<not> dry_run then
              (let w1 = w\<lparr>calls := calls w @ [AddLabel (uid email_data) (Some review_label)]\<rparr>
               in case transport fe of
                    Raises \<Rightarrow> (Raised TransportError, w1)
                  | _ \<Rightarrow>
                      (Completed,
                       w1\<lparr>executed_actions := executed_actions w1 @ [''LABEL_'' @ review_label]\<rparr>))
            else
              (Completed, w\<lparr>executed_actions := executed_actions w @ [''LABEL_'' @ review_label]\<rparr>))
      else (Completed, w))"

text \<open>
  One pass of \<open>for email_data in emails\<close>, from the analysis to the list handed to the
  audit log: the rule engine, the loop over the actions with a fresh
  \<open>executed_actions\<close>, and the fallback.
\<close>

definition process_email ::
  "safety_config \<Rightarrow> bool \<Rightarrow> rule list \<Rightarrow> email \<Rightarrow> analysis \<Rightarrow> (nat \<Rightarrow> env) \<Rightarrow> env \<Rightarrow> world
     \<Rightarrow> status \<times> world" where
  "process_email config dry_run rules email_data an envs fe w =
     (let confidence = confidence_of an;
          rule_actions' = evaluate rules (entries an)
      in case process_actions config dry_run email_data an confidence envs 0 rule_actions'
                (w\<lparr>executed_actions := []\<rparr>) of
           (Raised err, w1) \<Rightarrow> (Raised err, w1)
         | (Completed, w1) \<Rightarrow> fallback config dry_run email_data confidence fe w1)"

subsection \<open>Reading the list of calls\<close>

text \<open>A call of \<open>send_email\<close> with \<open>mode="send"\<close>.\<close>

definition is_send :: "call \<Rightarrow> bool" where
  "is_send c = (case c of SendEmail t s b r ch m \<Rightarrow> m = ''send'' | _ \<Rightarrow> False)"

text \<open>The calls made between the world \<open>w\<close> and the later world \<open>w'\<close>.\<close>

definition new_calls :: "world \<Rightarrow> world \<Rightarrow> call list" where
  "new_calls w w' = drop (length (calls w)) (calls w')"

text \<open>
  Every \<open>record_action\<close> in a list of calls comes directly after a \<open>send_email\<close> with
  \<open>mode="send"\<close>; \<open>prev\<close> says whether the call before the list was one.
\<close>

fun recorded_after :: "bool \<Rightarrow> call list \<Rightarrow> bool" where
  "recorded_after prev [] = True"
| "recorded_after prev (c # rest) = ((c = RecordAction \<longrightarrow> prev) \<and> recorded_after (is_send c) rest)"

definition well_recorded :: "call list \<Rightarrow> bool" where
  "well_recorded cs = recorded_after False cs"

section \<open>Concrete configurations and inputs\<close>

text \<open>The defaults of \<open>SafetyConfig\<close> and \<open>RateLimitConfig\<close>.\<close>

definition default_config :: safety_config where
  "default_config =
     \<lparr>min_confidence_for_auto_action = Fin (85 / 100),
      min_confidence_for_draft = Fin (60 / 100),
      rate_limit = \<lparr>enabled = True, max_emails_per_hour = 50\<rparr>,
      human_in_the_loop_label = ''AI_REVIEW_NEEDED''\<rparr>"

text \<open>A configuration whose draft threshold lies above its send threshold.\<close>

definition inverted_config :: safety_config where
  "inverted_config =
     \<lparr>min_confidence_for_auto_action = Fin (5 / 10),
      min_confidence_for_draft = Fin (8 / 10),
      rate_limit = \<lparr>enabled = True, max_emails_per_hour = 50\<rparr>,
      human_in_the_loop_label = ''AI_REVIEW_NEEDED''\<rparr>"

text \<open>The rules of \<open>tests/test_scenarios.py\<close>, plain dicts.\<close>

definition scenario_rules :: "rule list" where
  "scenario_rules =
     [RuleDict (Some ''Urgent Meeting Request'')
        (Some [''intent'' \<mapsto> PStr ''Meeting'', ''priority'' \<mapsto> PStr ''High''])
        (Some [\<lparr>action_type = ''label'', action_value = Some ''Urgent-Meeting'',
                 action_template = None\<rparr>,
               \<lparr>action_type = ''draft_reply'', action_value = None,
                 action_template = Some ''response_templates/meeting_confirm.txt''\<rparr>]),
      RuleDict (Some ''Newsletter Archive'')
        (Some [''intent'' \<mapsto> PStr ''Newsletter''])
        (Some [\<lparr>action_type = ''label'', action_value = Some ''Newsletters'',
                 action_template = None\<rparr>,
               \<lparr>action_type = ''archive'', action_value = None, action_template = None\<rparr>]),
      RuleDict (Some ''Spam Block'')
        (Some [''intent'' \<mapsto> PStr ''Spam''])
        (Some [\<lparr>action_type = ''label'', action_value = Some ''Potential-Spam'',
                 action_template = None\<rparr>])]"

text \<open>The string-valued entries of scenario B's analysis.\<close>

definition scenario_b :: pydict where
  "scenario_b =
     [''intent'' \<mapsto> PStr ''Newsletter'', ''priority'' \<mapsto> PStr ''Low'',
      ''suggested_response'' \<mapsto> PStr [], ''reasoning'' \<mapsto> PStr ''weekly digest'']"

text \<open>A rule whose condition names a field other than \<open>intent\<close> and \<open>priority\<close>.\<close>

definition reasoning_rule :: rule where
  "reasoning_rule =
     RuleConfig ''By reasoning'' [''reasoning'' \<mapsto> PStr ''invoice'']
       [\<lparr>action_type = ''archive'', action_value = None, action_template = None\<rparr>]"

text \<open>
  Successive calls of \<open>record_action\<close>, each with its clock reading and the outcome of
  its write; the first exception ends them.
\<close>

fun record_actions :: "(timestamp \<times> write_outcome) list \<Rightarrow> safety_layer \<Rightarrow> py_error + safety_layer" where
  "record_actions [] sl = Inr sl"
| "record_actions ((t, wr) # rest) sl =
     (case record_action t wr sl of Inl err \<Rightarrow> Inl err | Inr sl' \<Rightarrow> record_actions rest sl')"

text \<open>The default configuration with rate limiting switched off.\<close>

definition disabled_config :: safety_config where
  "disabled_config = default_config\<lparr>rate_limit := \<lparr>enabled = False, max_emails_per_hour = 50\<rparr>\<rparr>"

text \<open>The default configuration with a limit of two emails per hour.\<close>

definition two_per_hour_config :: safety_config where
  "two_per_hour_config = default_config\<lparr>rate_limit := \<lparr>enabled = True, max_emails_per_hour = 2\<rparr>\<rparr>"

text \<open>A safety layer loaded from a file that holds one send, at time 0.\<close>

definition stale_layer :: safety_layer where
  "stale_layer = init_safety_layer (Holds [''sent_log'' \<mapsto> [0]])"

text \<open>
  Two sends a little more than two hours later, the second with a write that fails, and
  the safety layer after them.
\<close>

definition two_sends :: "(timestamp \<times> write_outcome) list" where
  "two_sends = [(2 * one_hour + 1, Written), (2 * one_hour + 2, OpenFails)]"

definition full_layer :: safety_layer where
  "full_layer = \<lparr>state = [''sent_log'' \<mapsto> [0, 2 * one_hour + 1, 2 * one_hour + 2]],
                 state_file = Holds [''sent_log'' \<mapsto> [0, 2 * one_hour + 1]]\<rparr>"

text \<open>An email, and an analysis confident enough to send the suggested reply.\<close>

definition sample_email :: email where
  "sample_email =
     \<lparr>uid = ''42'', message_id = ''<m1@example.com>'', subject = ''Question'',
      sender = ''alice@example.com'', references = []\<rparr>"

definition confident_analysis :: analysis where
  "confident_analysis =
     \<lparr>entries = [''intent'' \<mapsto> PStr ''Inquiry'', ''priority'' \<mapsto> PStr ''Low'',
                 ''suggested_response'' \<mapsto> PStr ''Sure.''],
      confidence_score = Some (Fin (9 / 10))\<rparr>"

text \<open>The analysis \<open>_get_fallback_response\<close> of \<open>gemini_agent.py\<close> returns.\<close>

definition fallback_analysis :: analysis where
  "fallback_analysis =
     \<lparr>entries = [''intent'' \<mapsto> PStr ''Other'', ''priority'' \<mapsto> PStr ''Low'',
                 ''suggested_response'' \<mapsto> PStr [], ''reasoning'' \<mapsto> PStr ''API Error''],
      confidence_score = Some (Fin 0)\<rparr>"

text \<open>A reply action, a label action with the review label, and a rule that replies.\<close>

definition reply_action :: action where
  "reply_action = \<lparr>action_type = ''reply'', action_value = None, action_template = None\<rparr>"

definition review_label_action :: action where
  "review_label_action =
     \<lparr>action_type = ''label'', action_value = Some ''AI_REVIEW_NEEDED'', action_template = None\<rparr>"

definition reply_rule :: rule where
  "reply_rule = RuleConfig ''Auto reply'' [''intent'' \<mapsto> PStr ''Inquiry''] [reply_action]"

text \<open>A world in which every write and every call of the mail client succeeds.\<close>

definition quiet_env :: env where
  "quiet_env =
     \<lparr>check_now = 2 * one_hour, check_write = Written, transport = Succeeds,
      record_now = 2 * one_hour + 1, record_write = Written\<rparr>"

text \<open>
  The world before the first email of a run without a state file, after the reply to
  the sample email has been sent, and after the review label has been applied.
\<close>

definition start_world :: world where
  "start_world = \<lparr>safety = init_safety_layer Missing, calls = [], executed_actions = []\<rparr>"

definition sent_world :: world where
  "sent_world =
     \<lparr>safety = \<lparr>state = [''sent_log'' \<mapsto> [2 * one_hour + 1]],
                  state_file = Holds [''sent_log'' \<mapsto> [2 * one_hour + 1]]\<rparr>,
      calls = [SendEmail ''alice@example.com'' ''Re: Question'' ''Sure.'' ''<m1@example.com>'' []
                 ''send'',
               RecordAction],
      executed_actions = [''send'']\<rparr>"

definition labelled_world :: world where
  "labelled_world =
     \<lparr>safety = init_safety_layer Missing,
      calls = [AddLabel ''42'' (Some ''AI_REVIEW_NEEDED'')],
      executed_actions = [''LABEL_AI_REVIEW_NEEDED'']\<rparr>"



section \<open>Properties of the confidence gate and the safety gate\<close>

text \<open>
  C2 (as amended). \<open>determine_execution_mode\<close> is a total function of the confidence
  and the two thresholds: a confidence at or above the send threshold gives \<open>send\<close>;
  one at or above the draft threshold and below the send threshold gives \<open>draft\<close>; one
  below both thresholds gives \<open>manual\<close>. The send threshold is compared first, so the
  third case needs the confidence below the send threshold as well.
\<close>

theorem determine_execution_mode_cases:
  "(fge c (min_confidence_for_auto_action config) \<longrightarrow>
      determine_execution_mode config c = ''send'')
   \<and> (fge c (min_confidence_for_draft config) \<and> flt c (min_confidence_for_auto_action config) \<longrightarrow>
      determine_execution_mode config c = ''draft'')
   \<and> (flt c (min_confidence_for_draft config) \<and> flt c (min_confidence_for_auto_action config) \<longrightarrow>
      determine_execution_mode config c = ''manual'')
   \<and> determine_execution_mode config c \<in> {''send'', ''draft'', ''manual''}"
  by (cases c; cases "min_confidence_for_auto_action config";
      cases "min_confidence_for_draft config")
     (auto simp: determine_execution_mode_def)

theorem determine_execution_mode_cases_witness:
  "fge (Fin (9 / 10)) (min_confidence_for_auto_action default_config)
   \<and> determine_execution_mode default_config (Fin (9 / 10)) = ''send''
   \<and> fge (Fin (75 / 100)) (min_confidence_for_draft default_config)
   \<and> flt (Fin (75 / 100)) (min_confidence_for_auto_action default_config)
   \<and> determine_execution_mode default_config (Fin (75 / 100)) = ''draft''
   \<and> flt (Fin (4 / 10)) (min_confidence_for_draft default_config)
   \<and> flt (Fin (4 / 10)) (min_confidence_for_auto_action default_config)
   \<and> determine_execution_mode default_config (Fin (4 / 10)) = ''manual''"
  using determine_execution_mode_cases [of "Fin (9 / 10)" default_config]
        determine_execution_mode_cases [of "Fin (75 / 100)" default_config]
        determine_execution_mode_cases [of "Fin (4 / 10)" default_config]
  by (simp add: default_config_def)

text \<open>
  C2 as stated fails where the draft threshold exceeds the send threshold: with
  thresholds 0.5 (send) and 0.8 (draft), the confidence 0.6 is below the draft
  threshold and the result is \<open>send\<close>, not \<open>manual\<close>.
\<close>

theorem determine_execution_mode_inverted_counterexample:
  "flt (Fin (6 / 10)) (min_confidence_for_draft inverted_config)
   \<and> determine_execution_mode inverted_config (Fin (6 / 10)) = ''send''"
  by (simp add: inverted_config_def determine_execution_mode_def)

text \<open>
  C1. For a proposed mode \<open>send\<close> and every confidence: when \<open>check_rate_limit\<close>
  denies, \<open>validate_action\<close> returns \<open>draft\<close>, whatever the confidence; when it allows,
  the result is \<open>determine_execution_mode\<close> of the confidence. The safety layer is left
  as \<open>check_rate_limit\<close> leaves it.
\<close>

theorem validate_action_send:
  "validate_action config now wr ''send'' c sl =
     (if fst (check_rate_limit config now wr sl) then determine_execution_mode config c
      else ''draft'',
      snd (check_rate_limit config now wr sl))"
  by (simp add: validate_action_def check_confidence_def Let_def split: prod.splits)

theorem validate_action_send_witness:
  "\<not> fst (check_rate_limit two_per_hour_config (2 * one_hour + 3) Written full_layer)
   \<and> determine_execution_mode two_per_hour_config (Fin (4 / 10)) = ''manual''
   \<and> fst (validate_action two_per_hour_config (2 * one_hour + 3) Written ''send'' (Fin (4 / 10))
            full_layer) = ''draft''
   \<and> fst (check_rate_limit default_config (2 * one_hour + 3) Written full_layer)
   \<and> fst (validate_action default_config (2 * one_hour + 3) Written ''send'' (Fin (4 / 10))
            full_layer) = ''manual''
   \<and> fst (validate_action default_config (2 * one_hour + 3) Written ''send'' (Fin (7 / 10))
            full_layer) = ''draft''
   \<and> fst (validate_action default_config (2 * one_hour + 3) Written ''send'' (Fin (9 / 10))
            full_layer) = ''send''"
proof -
  have d: "\<not> fst (check_rate_limit two_per_hour_config (2 * one_hour + 3) Written full_layer)"
    by (simp add: check_rate_limit_def two_per_hour_config_def default_config_def full_layer_def
          get_sent_log_def one_hour_def Let_def)
  have a: "fst (check_rate_limit default_config (2 * one_hour + 3) Written full_layer)"
    by (simp add: check_rate_limit_def default_config_def full_layer_def
          get_sent_log_def one_hour_def Let_def)
  have m: "determine_execution_mode two_per_hour_config (Fin (4 / 10)) = ''manual''"
    "determine_execution_mode default_config (Fin (4 / 10)) = ''manual''"
    "determine_execution_mode default_config (Fin (7 / 10)) = ''draft''"
    "determine_execution_mode default_config (Fin (9 / 10)) = ''send''"
    by (simp_all add: determine_execution_mode_def two_per_hour_config_def default_config_def)
  from d m a
    validate_action_send [of two_per_hour_config "2 * one_hour + 3" Written "Fin (4 / 10)" full_layer]
    validate_action_send [of default_config "2 * one_hour + 3" Written "Fin (4 / 10)" full_layer]
    validate_action_send [of default_config "2 * one_hour + 3" Written "Fin (7 / 10)" full_layer]
    validate_action_send [of default_config "2 * one_hour + 3" Written "Fin (9 / 10)" full_layer]
  show ?thesis by simp
qed

text \<open>
  C3. A proposed mode other than \<open>send\<close> is returned unchanged for every confidence,
  and the safety layer is not touched: no rate-limit check takes place.
\<close>

theorem validate_action_passthrough:
  "m \<noteq> ''send'' \<Longrightarrow> validate_action config now wr m c sl = (m, sl)"
  by (simp add: validate_action_def check_confidence_def)

theorem validate_action_passthrough_witness:
  "''draft_reply'' \<noteq> ''send''
   \<and> validate_action default_config 0 Written ''draft_reply'' (Fin (95 / 100))
        (init_safety_layer Missing) = (''draft_reply'', init_safety_layer Missing)"
  using validate_action_passthrough
          [of "''draft_reply''" default_config 0 Written "Fin (95 / 100)" "init_safety_layer Missing"]
  by simp

section \<open>Properties of the rule engine\<close>

lemma evaluate_loop_concat:
  "evaluate_loop rules i p acc =
     acc @ concat (map rule_actions (filter (\<lambda>r. rule_match (rule_condition r) i p) rules))"
  by (induction rules arbitrary: acc) simp_all

lemma rule_match_iff:
  "rule_match c i p \<longleftrightarrow>
     (case c ''intent'' of None \<Rightarrow> True | Some v \<Rightarrow> v = i)
     \<and> (case c ''priority'' of None \<Rightarrow> True | Some v \<Rightarrow> v = p)"
  by (simp add: rule_match_def split: option.splits)

lemma rule_match_spec:
  assumes "dom c \<subseteq> {''intent'', ''priority''}"
  shows "rule_match c (dict_get d ''intent'') (dict_get d ''priority'') \<longleftrightarrow> spec_matches c d"
proof -
  have "spec_matches c d \<longleftrightarrow>
          (\<forall>k \<in> {''intent'', ''priority''}. case c k of None \<Rightarrow> True | Some v \<Rightarrow> v = dict_get d k)"
  proof
    assume s: "spec_matches c d"
    show "\<forall>k \<in> {''intent'', ''priority''}. case c k of None \<Rightarrow> True | Some v \<Rightarrow> v = dict_get d k"
    proof
      fix k assume "k \<in> {''intent'', ''priority''}"
      show "case c k of None \<Rightarrow> True | Some v \<Rightarrow> v = dict_get d k"
      proof (cases "c k")
        case None then show ?thesis by simp
      next
        case (Some v)
        then have "k \<in> dom c" by blast
        with s have "c k = Some (dict_get d k)" by (simp add: spec_matches_def)
        with Some show ?thesis by simp
      qed
    qed
  next
    assume r: "\<forall>k \<in> {''intent'', ''priority''}. case c k of None \<Rightarrow> True | Some v \<Rightarrow> v = dict_get d k"
    show "spec_matches c d"
      unfolding spec_matches_def
    proof
      fix k assume k: "k \<in> dom c"
      then obtain v where v: "c k = Some v" by blast
      from k assms have "k \<in> {''intent'', ''priority''}" by blast
      with r have "case c k of None \<Rightarrow> True | Some v \<Rightarrow> v = dict_get d k" by blast
      with v show "c k = Some (dict_get d k)" by simp
    qed
  qed
  then show ?thesis by (simp add: rule_match_iff)
qed

text \<open>
  C4 (as amended). \<open>evaluate\<close> returns the concatenation, in configuration order and
  then in the order inside each rule, of the action lists of the matching rules, where
  a rule matches if and only if each of the two fields \<open>intent\<close> and \<open>priority\<close> that
  its condition names equals that field of the classification (an absent field of the
  classification reading as \<open>None\<close>). A field the condition does not name is a
  wildcard, and so is every key of the condition other than those two. Hence, when
  the conditions name no other key, the result is the one the specification describes;
  and when no rule matches, the result is the empty list.
\<close>

theorem evaluate_concat_matching:
  "evaluate rules cls =
     concat (map rule_actions
       (filter (\<lambda>r. (case rule_condition r ''intent'' of None \<Rightarrow> True
                        | Some v \<Rightarrow> v = dict_get cls ''intent'')
                   \<and> (case rule_condition r ''priority'' of None \<Rightarrow> True
                        | Some v \<Rightarrow> v = dict_get cls ''priority'')) rules))
   \<and> ((\<forall>r \<in> set rules. dom (rule_condition r) \<subseteq> {''intent'', ''priority''})
        \<longrightarrow> evaluate rules cls = spec_evaluate rules cls)
   \<and> ((\<forall>r \<in> set rules. \<not> rule_match (rule_condition r) (dict_get cls ''intent'')
                             (dict_get cls ''priority''))
        \<longrightarrow> evaluate rules cls = [])"
proof (intro conjI impI)
  show "evaluate rules cls =
     concat (map rule_actions
       (filter (\<lambda>r. (case rule_condition r ''intent'' of None \<Rightarrow> True
                        | Some v \<Rightarrow> v = dict_get cls ''intent'')
                   \<and> (case rule_condition r ''priority'' of None \<Rightarrow> True
                        | Some v \<Rightarrow> v = dict_get cls ''priority'')) rules))"
    by (simp add: evaluate_def evaluate_loop_concat rule_match_iff)
next
  assume a: "\<forall>r \<in> set rules. dom (rule_condition r) \<subseteq> {''intent'', ''priority''}"
  have "filter (\<lambda>r. rule_match (rule_condition r) (dict_get cls ''intent'')
                   (dict_get cls ''priority'')) rules
        = filter (\<lambda>r. spec_matches (rule_condition r) cls) rules"
    using a by (intro filter_cong refl) (simp add: rule_match_spec)
  then show "evaluate rules cls = spec_evaluate rules cls"
    by (simp add: evaluate_def evaluate_loop_concat spec_evaluate_def)
next
  assume "\<forall>r \<in> set rules. \<not> rule_match (rule_condition r) (dict_get cls ''intent'')
                             (dict_get cls ''priority'')"
  then have "filter (\<lambda>r. rule_match (rule_condition r) (dict_get cls ''intent'')
                        (dict_get cls ''priority'')) rules = []"
    by (simp add: filter_empty_conv)
  then show "evaluate rules cls = []"
    by (simp add: evaluate_def evaluate_loop_concat)
qed

theorem evaluate_concat_matching_witness:
  "dom (rule_condition (scenario_rules ! 0)) \<subseteq> {''intent'', ''priority''}
   \<and> dom (rule_condition (scenario_rules ! 1)) \<subseteq> {''intent'', ''priority''}
   \<and> dom (rule_condition (scenario_rules ! 2)) \<subseteq> {''intent'', ''priority''}
   \<and> evaluate scenario_rules scenario_b = spec_evaluate scenario_rules scenario_b
   \<and> evaluate scenario_rules scenario_b =
        [\<lparr>action_type = ''label'', action_value = Some ''Newsletters'', action_template = None\<rparr>,
         \<lparr>action_type = ''archive'', action_value = None, action_template = None\<rparr>]"
  using evaluate_concat_matching [of scenario_rules scenario_b]
  by (simp add: scenario_rules_def scenario_b_def dict_get_def evaluate_def rule_match_def
        spec_evaluate_def spec_matches_def)

text \<open>
  C4 as stated fails on a condition that names another field: the rule below asks for
  \<open>reasoning = "invoice"\<close>, the classification has \<open>reasoning = "weekly digest"\<close>, and
  the rule matches all the same, while matching on every named field gives no action.
\<close>

theorem evaluate_other_key_counterexample:
  "evaluate [reasoning_rule] scenario_b =
     [\<lparr>action_type = ''archive'', action_value = None, action_template = None\<rparr>]
   \<and> spec_evaluate [reasoning_rule] scenario_b = []"
  by (simp add: evaluate_def rule_match_def spec_evaluate_def spec_matches_def
        reasoning_rule_def scenario_b_def dict_get_def)

section \<open>Loading the state, and well-formed states\<close>

text \<open>
  On a well-formed state the functions on JSON values raise nothing and do what the
  functions on \<open>state_dict\<close> do: \<open>__init__\<close>, \<open>check_rate_limit\<close> and, where
  \<open>fromisoformat\<close> reads back what \<open>isoformat\<close> wrote, \<open>record_action\<close> (which
  raises \<open>KeyError\<close> in both when the key is absent).
\<close>

lemma holds_state_empty: "holds_state p empty_state empty_log"
  by (simp add: holds_state_def empty_state_def empty_log_def)

lemma init_layers:
  "holds_file p f tf \<Longrightarrow> holds_layer p (init_json_layer f) (init_safety_layer tf)"
  by (auto simp: holds_layer_def holds_file_def init_json_layer_def init_safety_layer_def
        load_state_def holds_state_empty split: disk_file.splits state_file.splits)

lemma keep_recent_stamps:
  "stamps p xs = Some ts \<Longrightarrow>
   \<exists>kept. keep_recent p t xs = Inr kept \<and> stamps p kept = Some (filter (\<lambda>ts. ts > t) ts)"
proof (induction xs arbitrary: ts)
  case Nil
  then show ?case by simp
next
  case (Cons x xs)
  from Cons.prems obtain s u us where x: "x = JStr s" and u: "p s = Naive u"
    and us: "stamps p xs = Some us" and ts: "ts = u # us"
    by (auto split: json.splits iso.splits)
  from Cons.IH [OF us] obtain kept where k: "keep_recent p t xs = Inr kept"
    and sk: "stamps p kept = Some (filter (\<lambda>ts. ts > t) us)"
    by blast
  from x u k sk ts show ?case by simp
qed

lemma stamps_length: "stamps p xs = Some ts \<Longrightarrow> length xs = length ts"
  by (induction xs arbitrary: ts) (auto split: json.splits iso.splits)

lemma stamps_append:
  "stamps p xs = Some ts \<Longrightarrow> p s = Naive t \<Longrightarrow> stamps p (xs @ [JStr s]) = Some (ts @ [t])"
  by (induction xs arbitrary: ts) (auto split: json.splits iso.splits)

lemma holds_state_update:
  "stamps p xs = Some ts \<Longrightarrow>
   holds_state p (JDict (AList.update ''sent_log'' (JList xs) kvs)) (d(''sent_log'' \<mapsto> ts))"
  by (simp add: holds_state_def update_conv')

lemma holds_layer_save:
  "holds_layer p l sl \<Longrightarrow> holds_layer p (save_state_json wr l) (save_state wr sl)"
  by (cases wr) (simp_all add: holds_layer_def holds_file_def save_state_json_def save_state_def)

lemma check_rate_limit_layers:
  assumes "holds_layer p l sl"
  shows "\<exists>l'. check_rate_limit_json p config now wr l = Inr (fst (check_rate_limit config now wr sl), l')
              \<and> holds_layer p l' (snd (check_rate_limit config now wr sl))"
proof (cases "enabled (rate_limit config)")
  case False
  with assms show ?thesis
    by (simp add: check_rate_limit_json_def check_rate_limit_def)
next
  case True
  from assms obtain kvs where j: "jstate l = JDict kvs"
    by (auto simp: holds_layer_def holds_state_def split: json.splits)
  from assms j obtain xs where
    it: "iterate (case map_of kvs ''sent_log'' of None \<Rightarrow> JList [] | Some v \<Rightarrow> v) = Inr xs"
    and st: "stamps p xs = Some (get_sent_log (state sl))"
    by (auto simp: holds_layer_def holds_state_def iterate_def get_sent_log_def
        split: option.splits json.splits)
  from keep_recent_stamps [OF st, of "now - one_hour"] obtain kept where
    k: "keep_recent p (now - one_hour) xs = Inr kept" and
    sk: "stamps p kept = Some (filter (\<lambda>ts. ts > now - one_hour) (get_sent_log (state sl)))"
    by blast
  let ?l1 = "l\<lparr>jstate := JDict (AList.update ''sent_log'' (JList kept) kvs)\<rparr>"
  let ?sl1 = "sl\<lparr>state := (state sl)(''sent_log'' \<mapsto>
                 filter (\<lambda>ts. ts > now - one_hour) (get_sent_log (state sl)))\<rparr>"
  from assms have "holds_layer p ?l1 ?sl1"
    by (simp add: holds_layer_def holds_state_update [OF sk])
  then have h: "holds_layer p (save_state_json wr ?l1) (save_state wr ?sl1)"
    by (rule holds_layer_save)
  from stamps_length [OF sk]
  have len: "length kept = length (filter (\<lambda>ts. ts > now - one_hour) (get_sent_log (state sl)))" .
  from True j it k len h show ?thesis
    by (auto simp: check_rate_limit_json_def check_rate_limit_def Let_def)
qed

lemma record_action_layers:
  assumes "holds_layer p l sl" and "p (isoformat now) = Naive now"
  shows "case record_action now wr sl of
           Inl err \<Rightarrow> record_action_json isoformat now wr l = Inl err
         | Inr sl' \<Rightarrow> \<exists>l'. record_action_json isoformat now wr l = Inr l' \<and> holds_layer p l' sl'"
proof -
  from assms obtain kvs where j: "jstate l = JDict kvs"
    by (auto simp: holds_layer_def holds_state_def split: json.splits)
  show ?thesis
  proof (cases "map_of kvs ''sent_log''")
    case None
    with assms j have "state sl ''sent_log'' = None"
      by (simp add: holds_layer_def holds_state_def)
    with None j show ?thesis
      by (simp add: record_action_def record_action_json_def)
  next
    case (Some v)
    with assms j obtain xs ts where v: "v = JList xs" and st: "stamps p xs = Some ts"
      and d: "state sl ''sent_log'' = Some ts"
      by (auto simp: holds_layer_def holds_state_def split: json.splits)
    let ?l1 = "l\<lparr>jstate := JDict (AList.update ''sent_log'' (JList (xs @ [JStr (isoformat now)])) kvs)\<rparr>"
    let ?sl1 = "sl\<lparr>state := (state sl)(''sent_log'' \<mapsto> ts @ [now])\<rparr>"
    from assms have "holds_layer p ?l1 ?sl1"
      by (simp add: holds_layer_def holds_state_update [OF stamps_append [OF st assms(2)]])
    then have "holds_layer p (save_state_json wr ?l1) (save_state wr ?sl1)"
      by (rule holds_layer_save)
    with Some v d j show ?thesis
      by (simp add: record_action_def record_action_json_def)
  qed
qed




section \<open>Properties of the rate limiter\<close>

lemma get_sent_log_upd [simp]: "get_sent_log (st(''sent_log'' \<mapsto> l)) = l"
  by (simp add: get_sent_log_def)

lemma state_save_state [simp]: "state (save_state wr sl) = state sl"
  by (cases wr) (simp_all add: save_state_def)

lemma state_file_save_state_Written [simp]: "state_file (save_state Written sl) = Holds (state sl)"
  by (simp add: save_state_def)

lemma check_rate_limit_enabled:
  "enabled (rate_limit config) \<Longrightarrow>
   check_rate_limit config now wr sl =
     (int (length (filter (\<lambda>ts. now - one_hour < ts) (get_sent_log (state sl))))
        < max_emails_per_hour (rate_limit config),
      save_state wr (sl\<lparr>state := (state sl)(''sent_log'' \<mapsto>
         filter (\<lambda>ts. now - one_hour < ts) (get_sent_log (state sl)))\<rparr>))"
  by (auto simp: check_rate_limit_def Let_def)

lemma check_rate_limit_disabled:
  "\<not> enabled (rate_limit config) \<Longrightarrow> check_rate_limit config now wr sl = (True, sl)"
  by (simp add: check_rate_limit_def)

lemma record_action_log:
  "record_action now wr sl = Inr sl' \<Longrightarrow> get_sent_log (state sl') = get_sent_log (state sl) @ [now]"
  by (auto simp: record_action_def get_sent_log_def split: option.splits)

lemma record_actions_log:
  "record_actions sends sl = Inr sl' \<Longrightarrow>
   get_sent_log (state sl') = get_sent_log (state sl) @ map fst sends"
proof (induction sends arbitrary: sl)
  case Nil
  then show ?case by simp
next
  case (Cons s sends)
  obtain t wr where s: "s = (t, wr)" by (cases s)
  from Cons.prems s obtain sl1 where
    r: "record_action t wr sl = Inr sl1" and rest: "record_actions sends sl1 = Inr sl'"
    by (auto split: sum.splits)
  from Cons.IH [OF rest] record_action_log [OF r] s show ?case by simp
qed

text \<open>
  C5. With rate limiting disabled \<open>check_rate_limit\<close> returns \<open>True\<close> and touches
  nothing. Otherwise it keeps in the state exactly the timestamps later than one hour
  before now, writes that state to the file (a write that goes through leaves the file
  holding it) although nothing was recorded, and returns \<open>True\<close> if and only if the
  number of timestamps kept is strictly less than \<open>max_emails_per_hour\<close>. A timestamp
  older than one hour is not among those kept; and after at least
  \<open>max_emails_per_hour\<close> calls of \<open>record_action\<close> within the last hour the check
  returns \<open>False\<close>.
\<close>

theorem check_rate_limit_spec:
  "(\<not> enabled (rate_limit config) \<longrightarrow> check_rate_limit config now wr sl = (True, sl))
   \<and> (enabled (rate_limit config) \<longrightarrow>
        state (snd (check_rate_limit config now wr sl)) =
          (state sl)(''sent_log'' \<mapsto> filter (\<lambda>ts. now - one_hour < ts) (get_sent_log (state sl)))
        \<and> (wr = Written \<longrightarrow>
             state_file (snd (check_rate_limit config now wr sl)) =
               Holds (state (snd (check_rate_limit config now wr sl))))
        \<and> (fst (check_rate_limit config now wr sl) \<longleftrightarrow>
             int (length (get_sent_log (state (snd (check_rate_limit config now wr sl)))))
               < max_emails_per_hour (rate_limit config))
        \<and> (\<forall>ts \<in> set (get_sent_log (state sl)). ts < now - one_hour \<longrightarrow>
             ts \<notin> set (get_sent_log (state (snd (check_rate_limit config now wr sl))))))
   \<and> (enabled (rate_limit config) \<and> record_actions sends sl0 = Inr sl
        \<and> (\<forall>s \<in> set sends. now - one_hour < fst s)
        \<and> max_emails_per_hour (rate_limit config) \<le> int (length sends) \<longrightarrow>
        \<not> fst (check_rate_limit config now wr sl))"
proof (intro conjI impI)
  assume "\<not> enabled (rate_limit config)"
  then show "check_rate_limit config now wr sl = (True, sl)"
    by (rule check_rate_limit_disabled)
next
  assume e: "enabled (rate_limit config)"
  show "state (snd (check_rate_limit config now wr sl)) =
          (state sl)(''sent_log'' \<mapsto> filter (\<lambda>ts. now - one_hour < ts) (get_sent_log (state sl)))"
    by (simp add: check_rate_limit_enabled [OF e])
next
  assume e: "enabled (rate_limit config)" and "wr = Written"
  then show "state_file (snd (check_rate_limit config now wr sl)) =
               Holds (state (snd (check_rate_limit config now wr sl)))"
    by (simp add: check_rate_limit_enabled [OF e])
next
  assume e: "enabled (rate_limit config)"
  show "fst (check_rate_limit config now wr sl) \<longleftrightarrow>
             int (length (get_sent_log (state (snd (check_rate_limit config now wr sl)))))
               < max_emails_per_hour (rate_limit config)"
    by (simp add: check_rate_limit_enabled [OF e])
next
  assume e: "enabled (rate_limit config)"
  show "\<forall>ts \<in> set (get_sent_log (state sl)). ts < now - one_hour \<longrightarrow>
             ts \<notin> set (get_sent_log (state (snd (check_rate_limit config now wr sl))))"
    by (simp add: check_rate_limit_enabled [OF e])
next
  assume a: "enabled (rate_limit config) \<and> record_actions sends sl0 = Inr sl
        \<and> (\<forall>s \<in> set sends. now - one_hour < fst s)
        \<and> max_emails_per_hour (rate_limit config) \<le> int (length sends)"
  then have e: "enabled (rate_limit config)" by simp
  from a have log: "get_sent_log (state sl) = get_sent_log (state sl0) @ map fst sends"
    by (simp add: record_actions_log)
  from a have "filter (\<lambda>ts. now - one_hour < ts) (map fst sends) = map fst sends"
    by (simp add: filter_id_conv)
  then have "length sends \<le> length (filter (\<lambda>ts. now - one_hour < ts) (get_sent_log (state sl)))"
    by (simp add: log)
  with a show "\<not> fst (check_rate_limit config now wr sl)"
    by (simp add: check_rate_limit_enabled [OF e])
qed

theorem check_rate_limit_spec_witness:
  "\<not> enabled (rate_limit disabled_config)
   \<and> check_rate_limit disabled_config (2 * one_hour + 3) Written full_layer = (True, full_layer)
   \<and> enabled (rate_limit two_per_hour_config)
   \<and> record_actions two_sends stale_layer = Inr full_layer
   \<and> list_all (\<lambda>s. (2 * one_hour + 3) - one_hour < fst s) two_sends
   \<and> max_emails_per_hour (rate_limit two_per_hour_config) \<le> int (length two_sends)
   \<and> \<not> fst (check_rate_limit two_per_hour_config (2 * one_hour + 3) Written full_layer)
   \<and> get_sent_log (state (snd (check_rate_limit two_per_hour_config (2 * one_hour + 3) Written full_layer)))
       = [2 * one_hour + 1, 2 * one_hour + 2]
   \<and> state_file (snd (check_rate_limit two_per_hour_config (2 * one_hour + 3) Written full_layer))
       = Holds (state (snd (check_rate_limit two_per_hour_config (2 * one_hour + 3) Written full_layer)))
   \<and> 0 \<in> set (get_sent_log (state full_layer)) \<and> 0 < (2 * one_hour + 3) - one_hour
   \<and> 0 \<notin> set (get_sent_log (state (snd (check_rate_limit two_per_hour_config (2 * one_hour + 3) Written full_layer))))"
proof -
  have e: "enabled (rate_limit two_per_hour_config)"
    by (simp add: two_per_hour_config_def)
  have d: "\<not> enabled (rate_limit disabled_config)"
    by (simp add: disabled_config_def)
  have r: "record_actions two_sends stale_layer = Inr full_layer"
    by (simp add: two_sends_def stale_layer_def full_layer_def record_action_def
          init_safety_layer_def save_state_def)
  have recent: "\<forall>s \<in> set two_sends. (2 * one_hour + 3) - one_hour < fst s"
    by (simp add: two_sends_def one_hour_def)
  have n: "max_emails_per_hour (rate_limit two_per_hour_config) \<le> int (length two_sends)"
    by (simp add: two_per_hour_config_def two_sends_def)
  have old: "(0::int) \<in> set (get_sent_log (state full_layer))" "(0::int) < (2 * one_hour + 3) - one_hour"
    by (simp_all add: full_layer_def get_sent_log_def one_hour_def)
  have log: "get_sent_log (state (snd (check_rate_limit two_per_hour_config (2 * one_hour + 3) Written full_layer)))
       = [2 * one_hour + 1, 2 * one_hour + 2]"
    by (simp add: check_rate_limit_def two_per_hour_config_def full_layer_def get_sent_log_def
          save_state_def one_hour_def Let_def)
  note t1 = check_rate_limit_spec
    [where config = disabled_config and now = "2 * one_hour + 3" and wr = Written
       and sl = full_layer and sends = "[]" and ?sl0.0 = full_layer]
  note t2 = check_rate_limit_spec
    [where config = two_per_hour_config and now = "2 * one_hour + 3" and wr = Written
       and sl = full_layer and sends = two_sends and ?sl0.0 = stale_layer]
  from t1 d have c1: "check_rate_limit disabled_config (2 * one_hour + 3) Written full_layer = (True, full_layer)"
    by blast
  from t2 e r recent n
  have c2: "\<not> fst (check_rate_limit two_per_hour_config (2 * one_hour + 3) Written full_layer)"
    by blast
  from t2 e
  have c3: "state_file (snd (check_rate_limit two_per_hour_config (2 * one_hour + 3) Written full_layer))
       = Holds (state (snd (check_rate_limit two_per_hour_config (2 * one_hour + 3) Written full_layer)))"
    by blast
  from t2 e old
  have c4: "0 \<notin> set (get_sent_log (state (snd (check_rate_limit two_per_hour_config (2 * one_hour + 3) Written full_layer))))"
    by simp
  from recent have recent': "list_all (\<lambda>s. (2 * one_hour + 3) - one_hour < fst s) two_sends"
    by (simp add: list_all_iff)
  from d c1 e r recent' n c2 log c3 old c4 show ?thesis by blast
qed

text \<open>
  C6 (as amended). After a check made with rate limiting enabled, every timestamp in
  the state is later than one hour before the clock reading of that check; a check
  with rate limiting disabled leaves the state as it was. \<open>record_action\<close> appends the
  current time and prunes nothing: the timestamps after it lie within the trailing hour
  exactly when those stored before it did.
\<close>

theorem check_prunes_record_appends:
  "(enabled (rate_limit config) \<longrightarrow>
      (\<forall>ts \<in> set (get_sent_log (state (snd (check_rate_limit config now wr sl)))).
         now - one_hour < ts))
   \<and> (\<not> enabled (rate_limit config) \<longrightarrow> snd (check_rate_limit config now wr sl) = sl)
   \<and> (record_action now wr sl = Inr sl' \<longrightarrow>
        get_sent_log (state sl') = get_sent_log (state sl) @ [now]
        \<and> ((\<forall>ts \<in> set (get_sent_log (state sl')). now - one_hour < ts) \<longleftrightarrow>
             (\<forall>ts \<in> set (get_sent_log (state sl)). now - one_hour < ts)))"
proof (intro conjI impI)
  assume e: "enabled (rate_limit config)"
  show "\<forall>ts \<in> set (get_sent_log (state (snd (check_rate_limit config now wr sl)))).
         now - one_hour < ts"
    by (simp add: check_rate_limit_enabled [OF e])
next
  assume "\<not> enabled (rate_limit config)"
  then show "snd (check_rate_limit config now wr sl) = sl"
    by (simp add: check_rate_limit_disabled)
next
  assume r: "record_action now wr sl = Inr sl'"
  then show "get_sent_log (state sl') = get_sent_log (state sl) @ [now]"
    by (rule record_action_log)
next
  assume r: "record_action now wr sl = Inr sl'"
  show "(\<forall>ts \<in> set (get_sent_log (state sl')). now - one_hour < ts) \<longleftrightarrow>
             (\<forall>ts \<in> set (get_sent_log (state sl)). now - one_hour < ts)"
    by (auto simp: record_action_log [OF r] one_hour_def)
qed

theorem check_prunes_record_appends_witness:
  "enabled (rate_limit two_per_hour_config)
   \<and> list_all (\<lambda>ts. (2 * one_hour + 3) - one_hour < ts)
        (get_sent_log (state (snd (check_rate_limit two_per_hour_config (2 * one_hour + 3) Written full_layer))))
   \<and> \<not> enabled (rate_limit disabled_config)
   \<and> snd (check_rate_limit disabled_config (2 * one_hour + 3) Written full_layer) = full_layer
   \<and> record_action (2 * one_hour + 3) OpenFails full_layer =
        Inr (full_layer\<lparr>state := [''sent_log'' \<mapsto> [0, 2 * one_hour + 1, 2 * one_hour + 2, 2 * one_hour + 3]]\<rparr>)
   \<and> get_sent_log [''sent_log'' \<mapsto> [0, 2 * one_hour + 1, 2 * one_hour + 2, 2 * one_hour + 3]] =
        get_sent_log (state full_layer) @ [2 * one_hour + 3]"
proof -
  have e: "enabled (rate_limit two_per_hour_config)"
    by (simp add: two_per_hour_config_def)
  have d: "\<not> enabled (rate_limit disabled_config)"
    by (simp add: disabled_config_def)
  have r: "record_action (2 * one_hour + 3) OpenFails full_layer =
        Inr (full_layer\<lparr>state := [''sent_log'' \<mapsto> [0, 2 * one_hour + 1, 2 * one_hour + 2, 2 * one_hour + 3]]\<rparr>)"
    by (simp add: record_action_def full_layer_def save_state_def)
  note t1 = check_prunes_record_appends
    [where config = two_per_hour_config and now = "2 * one_hour + 3" and wr = Written
       and sl = full_layer and sl' = full_layer]
  note t2 = check_prunes_record_appends
    [where config = disabled_config and now = "2 * one_hour + 3" and wr = OpenFails
       and sl = full_layer
       and sl' = "full_layer\<lparr>state := [''sent_log'' \<mapsto> [0, 2 * one_hour + 1, 2 * one_hour + 2, 2 * one_hour + 3]]\<rparr>"]
  from t1 e have c1: "list_all (\<lambda>ts. (2 * one_hour + 3) - one_hour < ts)
        (get_sent_log (state (snd (check_rate_limit two_per_hour_config (2 * one_hour + 3) Written full_layer))))"
    by (simp add: list_all_iff)
  from t2 d have c2: "snd (check_rate_limit disabled_config (2 * one_hour + 3) OpenFails full_layer) = full_layer"
    by blast
  then have c2': "snd (check_rate_limit disabled_config (2 * one_hour + 3) Written full_layer) = full_layer"
    by (simp add: check_rate_limit_def disabled_config_def)
  from t2 r have c3: "get_sent_log [''sent_log'' \<mapsto> [0, 2 * one_hour + 1, 2 * one_hour + 2, 2 * one_hour + 3]] =
        get_sent_log (state full_layer) @ [2 * one_hour + 3]"
    by simp
  from e c1 d c2' r c3 show ?thesis by blast
qed

text \<open>
  C6 as stated fails for \<open>record_action\<close>, and for a check with rate limiting
  disabled: a send logged at time 0 is still in the state two hours later, after the
  check and after the record.
\<close>

theorem record_keeps_stale_counterexample:
  "get_sent_log (state stale_layer) = [0]
   \<and> snd (check_rate_limit disabled_config (2 * one_hour) Written stale_layer) = stale_layer
   \<and> (case record_action (2 * one_hour) Written stale_layer of
         Inl err \<Rightarrow> [] | Inr sl' \<Rightarrow> get_sent_log (state sl')) = [0, 2 * one_hour]
   \<and> \<not> (2 * one_hour - one_hour < (0::int))"
  by (simp add: stale_layer_def init_safety_layer_def record_action_def
        check_rate_limit_def disabled_config_def default_config_def one_hour_def)

section \<open>Properties of the orchestrator's loop\<close>

subsection \<open>The calls one action and one email make\<close>

lemma recorded_after_mono: "recorded_after False cs \<Longrightarrow> recorded_after p cs"
  by (cases cs) auto

lemma recorded_after_append:
  "recorded_after p xs \<Longrightarrow> recorded_after False ys \<Longrightarrow> recorded_after p (xs @ ys)"
  by (induction xs arbitrary: p) (auto intro: recorded_after_mono)

lemma well_recorded_append:
  "well_recorded xs \<Longrightarrow> well_recorded ys \<Longrightarrow> well_recorded (xs @ ys)"
  by (simp add: well_recorded_def recorded_after_append)

lemma send_reply_calls:
  assumes "send_reply em an m e w = (st, w')"
  shows "\<exists>new. calls w' = calls w @ new
          \<and> (new = [] \<or> (\<exists>t s b r ch. new = [SendEmail t s b r ch m])
              \<or> (m = ''send'' \<and> transport e = Succeeds
                  \<and> (\<exists>t s b r ch. new = [SendEmail t s b r ch ''send'', RecordAction])))"
  using assms
  by (auto simp: send_reply_def Let_def
      split: pyval.splits if_splits transport_outcome.splits sum.splits)

lemma handle_action_calls:
  assumes "handle_action config dry_run em an conf a e w = (st, w')"
  shows "\<exists>new. calls w' = calls w @ new
          \<and> (new = [] \<or> (\<exists>c. new = [c] \<and> c \<noteq> RecordAction \<and> \<not> dry_run
                            \<and> (is_send c \<longrightarrow> action_type a = ''reply''
                                 \<and> fst (validate_action config (check_now e) (check_write e) ''send'' conf (safety w)) = ''send''))
              \<or> (\<not> dry_run \<and> action_type a = ''reply'' \<and> transport e = Succeeds
                  \<and> fst (validate_action config (check_now e) (check_write e) ''send'' conf (safety w)) = ''send''
                  \<and> (\<exists>t s b r ch. new = [SendEmail t s b r ch ''send'', RecordAction])))"
proof -
  consider (reply) "action_type a = ''reply''" | (draft) "action_type a = ''draft_reply''"
    | (label) "action_type a = ''label''" | (archive) "action_type a = ''archive''"
    | (other) "action_type a \<notin> {''reply'', ''draft_reply'', ''label'', ''archive''}"
    by blast
  then show ?thesis
  proof cases
    case reply
    obtain m sl where v: "validate_action config (check_now e) (check_write e) ''send'' conf (safety w) = (m, sl)"
      by (cases "validate_action config (check_now e) (check_write e) ''send'' conf (safety w)")
    show ?thesis
    proof (cases "m \<noteq> ''manual'' \<and> \<not> dry_run")
      case True
      with assms reply v have "send_reply em an m e (w\<lparr>safety := sl\<rparr>) = (st, w')"
        by (simp add: handle_action_def)
      from send_reply_calls [OF this] reply v True show ?thesis
        by (auto simp: is_send_def)
    next
      case False
      with assms reply v show ?thesis
        by (auto simp: handle_action_def Let_def split: if_splits)
    qed
  next
    case draft
    have v: "validate_action config (check_now e) (check_write e) ''draft'' conf (safety w) = (''draft'', safety w)"
      by (simp add: validate_action_def check_confidence_def)
    show ?thesis
    proof (cases dry_run)
      case True
      with assms draft v show ?thesis by (auto simp: handle_action_def)
    next
      case False
      with assms draft v have "send_reply em an ''draft'' e (w\<lparr>safety := safety w\<rparr>) = (st, w')"
        by (simp add: handle_action_def)
      from send_reply_calls [OF this] False show ?thesis
        by (auto simp: is_send_def)
    qed
  next
    case label
    with assms show ?thesis
      by (auto simp: handle_action_def Let_def is_send_def split: if_splits transport_outcome.splits)
  next
    case archive
    with assms show ?thesis
      by (auto simp: handle_action_def Let_def is_send_def split: if_splits transport_outcome.splits)
  next
    case other
    with assms show ?thesis
      by (auto simp: handle_action_def Let_def)
  qed
qed

lemma handle_action_new_calls:
  assumes "handle_action config dry_run em an conf a e w = (st, w')"
  shows "\<exists>new. calls w' = calls w @ new
          \<and> (\<forall>c \<in> set new. is_send c \<longrightarrow> \<not> dry_run \<and> action_type a = ''reply''
                \<and> fst (validate_action config (check_now e) (check_write e) ''send'' conf (safety w)) = ''send'')
          \<and> well_recorded new \<and> (dry_run \<longrightarrow> new = [])
          \<and> (RecordAction \<in> set new \<longrightarrow> \<not> dry_run \<and> transport e = Succeeds
                \<and> (\<exists>t s b r ch. new = [SendEmail t s b r ch ''send'', RecordAction]))"
proof -
  from handle_action_calls [OF assms] obtain new where
    c: "calls w' = calls w @ new" and
    shape: "new = [] \<or> (\<exists>c. new = [c] \<and> c \<noteq> RecordAction \<and> \<not> dry_run
                            \<and> (is_send c \<longrightarrow> action_type a = ''reply''
                                 \<and> fst (validate_action config (check_now e) (check_write e) ''send'' conf (safety w)) = ''send''))
              \<or> (\<not> dry_run \<and> action_type a = ''reply'' \<and> transport e = Succeeds
                  \<and> fst (validate_action config (check_now e) (check_write e) ''send'' conf (safety w)) = ''send''
                  \<and> (\<exists>t s b r ch. new = [SendEmail t s b r ch ''send'', RecordAction]))"
    by blast
  from shape consider (none) "new = []"
    | (one) c where "new = [c]" "c \<noteq> RecordAction" "\<not> dry_run"
        "is_send c \<longrightarrow> action_type a = ''reply''
           \<and> fst (validate_action config (check_now e) (check_write e) ''send'' conf (safety w)) = ''send''"
    | (two) t s b r ch where "\<not> dry_run" "action_type a = ''reply''" "transport e = Succeeds"
        "fst (validate_action config (check_now e) (check_write e) ''send'' conf (safety w)) = ''send''"
        "new = [SendEmail t s b r ch ''send'', RecordAction]"
    by blast
  then show ?thesis
  proof cases
    case none
    with c show ?thesis by (simp add: well_recorded_def)
  next
    case one
    with c show ?thesis by (simp add: well_recorded_def)
  next
    case two
    with c show ?thesis by (simp add: well_recorded_def is_send_def)
  qed
qed

lemma validate_action_send_iff:
  "fst (validate_action config now wr ''send'' conf sl) = ''send'' \<longleftrightarrow>
     fst (check_rate_limit config now wr sl) \<and> determine_execution_mode config conf = ''send''"
  by (auto simp: validate_action_def check_confidence_def Let_def split: prod.splits if_splits)

lemma determine_execution_mode_send_iff:
  "determine_execution_mode config conf = ''send'' \<longleftrightarrow>
     fge conf (min_confidence_for_auto_action config)"
  by (simp add: determine_execution_mode_def)

lemma new_calls_append [simp]: "calls w' = calls w @ new \<Longrightarrow> new_calls w w' = new"
  by (simp add: new_calls_def)

lemma process_actions_calls:
  "process_actions config dry_run em an conf envs i acts w = (st, w') \<Longrightarrow>
   \<exists>new. calls w' = calls w @ new
     \<and> (\<forall>c \<in> set new. is_send c \<longrightarrow> \<not> dry_run \<and> determine_execution_mode config conf = ''send'')
     \<and> well_recorded new \<and> (dry_run \<longrightarrow> new = [])"
proof (induction acts arbitrary: i w)
  case Nil
  then show ?case by (simp add: well_recorded_def)
next
  case (Cons a acts)
  obtain st1 w1 where h: "handle_action config dry_run em an conf a (envs i) w = (st1, w1)"
    by (cases "handle_action config dry_run em an conf a (envs i) w")
  from handle_action_new_calls [OF h] obtain new1 where
    c1: "calls w1 = calls w @ new1" and
    s0: "\<forall>c \<in> set new1. is_send c \<longrightarrow> \<not> dry_run \<and> action_type a = ''reply''
                \<and> fst (validate_action config (check_now (envs i)) (check_write (envs i)) ''send'' conf (safety w)) = ''send''" and
    r1: "well_recorded new1" and d1: "dry_run \<longrightarrow> new1 = []"
    by blast
  from s0 have s1: "\<forall>c \<in> set new1. is_send c \<longrightarrow> \<not> dry_run \<and> determine_execution_mode config conf = ''send''"
    by (simp add: validate_action_send_iff)
  show ?case
  proof (cases st1)
    case Completed
    with Cons.prems h
    have "process_actions config dry_run em an conf envs (Suc i) acts w1 = (st, w')"
      by simp
    from Cons.IH [OF this] obtain new2 where
      c2: "calls w' = calls w1 @ new2" and
      s2: "\<forall>c \<in> set new2. is_send c \<longrightarrow> \<not> dry_run \<and> determine_execution_mode config conf = ''send''" and
      r2: "well_recorded new2" and d2: "dry_run \<longrightarrow> new2 = []"
      by blast
    from c1 c2 have "calls w' = calls w @ (new1 @ new2)" by simp
    moreover from s1 s2
    have "\<forall>c \<in> set (new1 @ new2). is_send c \<longrightarrow> \<not> dry_run \<and> determine_execution_mode config conf = ''send''"
      by auto
    moreover from r1 r2 have "well_recorded (new1 @ new2)" by (rule well_recorded_append)
    moreover from d1 d2 have "dry_run \<longrightarrow> new1 @ new2 = []" by simp
    ultimately show ?thesis by blast
  next
    case (Raised err)
    with Cons.prems h have "w' = w1" by simp
    with c1 s1 r1 d1 show ?thesis by blast
  qed
qed

lemma fallback_calls:
  "fallback config dry_run em conf fe w = (st, w') \<Longrightarrow>
   calls w' = calls w
   \<or> (\<not> dry_run \<and> calls w' = calls w @ [AddLabel (uid em) (Some (human_in_the_loop_label config))])"
proof (cases "flt conf (min_confidence_for_draft config) \<and> executed_actions w = []")
  case False
  assume "fallback config dry_run em conf fe w = (st, w')"
  with False have "w' = w" by (auto simp: fallback_def split: if_splits)
  then show ?thesis by simp
next
  case True
  assume f: "fallback config dry_run em conf fe w = (st, w')"
  show ?thesis
  proof (cases dry_run)
    case True
    with f \<open>flt conf (min_confidence_for_draft config) \<and> executed_actions w = []\<close>
    have "w' = w\<lparr>executed_actions := executed_actions w @ [''LABEL_'' @ human_in_the_loop_label config]\<rparr>"
      by (simp add: fallback_def Let_def)
    then show ?thesis by simp
  next
    case False
    with f \<open>flt conf (min_confidence_for_draft config) \<and> executed_actions w = []\<close>
    have "calls w' = calls w @ [AddLabel (uid em) (Some (human_in_the_loop_label config))]"
      by (cases "transport fe") (auto simp: fallback_def Let_def)
    with False show ?thesis by simp
  qed
qed

lemma process_email_calls:
  assumes "process_email config dry_run rules em an envs fe w = (st, w')"
  shows "\<exists>new. calls w' = calls w @ new
     \<and> (\<forall>c \<in> set new. is_send c \<longrightarrow> \<not> dry_run \<and> determine_execution_mode config (confidence_of an) = ''send'')
     \<and> well_recorded new \<and> (dry_run \<longrightarrow> new = [])"
proof -
  obtain st1 w1 where p: "process_actions config dry_run em an (confidence_of an) envs 0
      (evaluate rules (entries an)) (w\<lparr>executed_actions := []\<rparr>) = (st1, w1)"
    by (cases "process_actions config dry_run em an (confidence_of an) envs 0
      (evaluate rules (entries an)) (w\<lparr>executed_actions := []\<rparr>)")
  from process_actions_calls [OF p] obtain new1 where
    c1: "calls w1 = calls w @ new1" and
    s1: "\<forall>c \<in> set new1. is_send c \<longrightarrow> \<not> dry_run \<and> determine_execution_mode config (confidence_of an) = ''send''" and
    r1: "well_recorded new1" and d1: "dry_run \<longrightarrow> new1 = []"
    by auto
  show ?thesis
  proof (cases st1)
    case (Raised err)
    with assms p have "w' = w1" by (simp add: process_email_def)
    with c1 s1 r1 d1 show ?thesis by blast
  next
    case Completed
    with assms p have f: "fallback config dry_run em (confidence_of an) fe w1 = (st, w')"
      by (simp add: process_email_def)
    from fallback_calls [OF f] consider "calls w' = calls w1"
      | "\<not> dry_run" "calls w' = calls w1 @ [AddLabel (uid em) (Some (human_in_the_loop_label config))]"
      by blast
    then show ?thesis
    proof cases
      case 1
      with c1 have "calls w' = calls w @ new1" by simp
      with s1 r1 d1 show ?thesis by blast
    next
      case 2
      have "well_recorded [AddLabel (uid em) (Some (human_in_the_loop_label config))]"
        by (simp add: well_recorded_def)
      with r1 have "well_recorded (new1 @ [AddLabel (uid em) (Some (human_in_the_loop_label config))])"
        by (rule well_recorded_append)
      moreover from 2 c1
      have "calls w' = calls w @ (new1 @ [AddLabel (uid em) (Some (human_in_the_loop_label config))])"
        by simp
      moreover from s1
      have "\<forall>c \<in> set (new1 @ [AddLabel (uid em) (Some (human_in_the_loop_label config))]).
              is_send c \<longrightarrow> \<not> dry_run \<and> determine_execution_mode config (confidence_of an) = ''send''"
        by (auto simp: is_send_def)
      ultimately show ?thesis using 2(1) by blast
    qed
  qed
qed

lemma sent_run:
  "handle_action default_config False sample_email confident_analysis (Fin (9 / 10)) reply_action
     quiet_env start_world = (Completed, sent_world)"
  by (simp add: handle_action_def validate_action_def check_confidence_def check_rate_limit_def
        determine_execution_mode_def send_reply_def record_action_def save_state_def
        suggested_response_def get_sent_log_def Let_def
        default_config_def sample_email_def confident_analysis_def reply_action_def quiet_env_def
        start_world_def sent_world_def init_safety_layer_def empty_log_def)

lemma sent_email_run:
  "process_email default_config False [reply_rule] sample_email confident_analysis
     (\<lambda>i. quiet_env) quiet_env start_world = (Completed, sent_world)"
proof -
  have e: "evaluate [reply_rule] (entries confident_analysis) = [reply_action]"
    by (simp add: evaluate_def rule_match_def reply_rule_def confident_analysis_def dict_get_def)
  have c: "confidence_of confident_analysis = Fin (9 / 10)"
    by (simp add: confidence_of_def confident_analysis_def)
  have s: "start_world\<lparr>executed_actions := []\<rparr> = start_world"
    by (simp add: start_world_def)
  have f: "fallback default_config False sample_email (Fin (9 / 10)) quiet_env sent_world
             = (Completed, sent_world)"
    by (simp add: fallback_def default_config_def)
  show ?thesis
    by (simp add: process_email_def e c s sent_run f)
qed

lemma labelled_run:
  "process_email default_config False [] sample_email fallback_analysis
     (\<lambda>i. quiet_env) quiet_env start_world = (Completed, labelled_world)"
  by (simp add: process_email_def evaluate_def confidence_of_def fallback_def Let_def
        fallback_analysis_def default_config_def start_world_def labelled_world_def
        sample_email_def quiet_env_def)

text \<open>
  C8. Handling one action calls \<open>send_email\<close> with \<open>mode="send"\<close> only in a live run,
  for a \<open>reply\<close> action, and when \<open>validate_action\<close> returned \<open>send\<close> for it: the
  rate-limit check made at the gate allowed, and \<open>determine_execution_mode\<close> of the
  confidence is \<open>send\<close>, that is, the confidence is at or above the send threshold.
  \<open>record_action\<close> is called only in a live run, directly after such a
  \<open>send_email\<close> that succeeded. Over the whole of one email the same holds of every
  call made: a send needs a live run and a confidence at or above the send threshold,
  and every \<open>record_action\<close> directly follows a send.
\<close>

theorem send_only_through_gate:
  "(handle_action config dry_run email_data an confidence a e w = (st, w') \<longrightarrow>
      calls w' = calls w @ new_calls w w'
      \<and> ((\<exists>c \<in> set (new_calls w w'). is_send c) \<longrightarrow>
           \<not> dry_run \<and> action_type a = ''reply''
           \<and> fst (validate_action config (check_now e) (check_write e) ''send'' confidence (safety w)) = ''send''
           \<and> fst (check_rate_limit config (check_now e) (check_write e) (safety w))
           \<and> determine_execution_mode config confidence = ''send''
           \<and> fge confidence (min_confidence_for_auto_action config))
      \<and> (RecordAction \<in> set (new_calls w w') \<longrightarrow>
           \<not> dry_run \<and> transport e = Succeeds
           \<and> (\<exists>t s b r ch. new_calls w w' = [SendEmail t s b r ch ''send'', RecordAction])))
   \<and> (process_email config dry_run rules email_data an envs fe w = (st2, w2) \<longrightarrow>
      calls w2 = calls w @ new_calls w w2
      \<and> ((\<exists>c \<in> set (new_calls w w2). is_send c) \<longrightarrow>
           \<not> dry_run \<and> fge (confidence_of an) (min_confidence_for_auto_action config))
      \<and> well_recorded (new_calls w w2))"
proof (intro conjI impI)
  assume h: "handle_action config dry_run email_data an confidence a e w = (st, w')"
  from handle_action_new_calls [OF h] obtain new where
    c: "calls w' = calls w @ new" and
    s: "\<forall>c \<in> set new. is_send c \<longrightarrow> \<not> dry_run \<and> action_type a = ''reply''
          \<and> fst (validate_action config (check_now e) (check_write e) ''send'' confidence (safety w)) = ''send''" and
    r: "RecordAction \<in> set new \<longrightarrow> \<not> dry_run \<and> transport e = Succeeds
          \<and> (\<exists>t s b r ch. new = [SendEmail t s b r ch ''send'', RecordAction])"
    by blast
  from c have n: "new_calls w w' = new" by simp
  from c n show "calls w' = calls w @ new_calls w w'" by simp
  {
    assume "\<exists>c \<in> set (new_calls w w'). is_send c"
    with n s have g: "\<not> dry_run \<and> action_type a = ''reply''
           \<and> fst (validate_action config (check_now e) (check_write e) ''send'' confidence (safety w)) = ''send''"
      by blast
    then show "\<not> dry_run" "action_type a = ''reply''"
      "fst (validate_action config (check_now e) (check_write e) ''send'' confidence (safety w)) = ''send''"
      by simp_all
    from g show "fst (check_rate_limit config (check_now e) (check_write e) (safety w))"
      "determine_execution_mode config confidence = ''send''"
      by (simp_all add: validate_action_send_iff)
    then show "fge confidence (min_confidence_for_auto_action config)"
      by (simp add: determine_execution_mode_send_iff)
  }
  {
    assume "RecordAction \<in> set (new_calls w w')"
    with n r show "\<not> dry_run" "transport e = Succeeds"
      "\<exists>t s b r ch. new_calls w w' = [SendEmail t s b r ch ''send'', RecordAction]"
      by simp_all
  }
next
  assume p: "process_email config dry_run rules email_data an envs fe w = (st2, w2)"
  from process_email_calls [OF p] obtain new where
    c: "calls w2 = calls w @ new" and
    s: "\<forall>c \<in> set new. is_send c \<longrightarrow> \<not> dry_run \<and> determine_execution_mode config (confidence_of an) = ''send''" and
    r: "well_recorded new"
    by blast
  from c have n: "new_calls w w2 = new" by simp
  from c n show "calls w2 = calls w @ new_calls w w2" by simp
  from r n show "well_recorded (new_calls w w2)" by simp
  {
    assume "\<exists>c \<in> set (new_calls w w2). is_send c"
    with n s show "\<not> dry_run" "fge (confidence_of an) (min_confidence_for_auto_action config)"
      by (auto simp: determine_execution_mode_send_iff)
  }
qed

theorem send_only_through_gate_witness:
  "handle_action default_config False sample_email confident_analysis (Fin (9 / 10)) reply_action
     quiet_env start_world = (Completed, sent_world)
   \<and> new_calls start_world sent_world =
        [SendEmail ''alice@example.com'' ''Re: Question'' ''Sure.'' ''<m1@example.com>'' [] ''send'',
         RecordAction]
   \<and> is_send (SendEmail ''alice@example.com'' ''Re: Question'' ''Sure.'' ''<m1@example.com>'' [] ''send'')
   \<and> fst (check_rate_limit default_config (check_now quiet_env) (check_write quiet_env)
            (safety start_world))
   \<and> determine_execution_mode default_config (Fin (9 / 10)) = ''send''
   \<and> transport quiet_env = Succeeds
   \<and> process_email default_config False [reply_rule] sample_email confident_analysis
        (\<lambda>i. quiet_env) quiet_env start_world = (Completed, sent_world)
   \<and> fge (confidence_of confident_analysis) (min_confidence_for_auto_action default_config)
   \<and> well_recorded (new_calls start_world sent_world)"
proof -
  have n: "new_calls start_world sent_world =
        [SendEmail ''alice@example.com'' ''Re: Question'' ''Sure.'' ''<m1@example.com>'' [] ''send'',
         RecordAction]"
    by (simp add: new_calls_def start_world_def sent_world_def)
  have i: "is_send (SendEmail ''alice@example.com'' ''Re: Question'' ''Sure.'' ''<m1@example.com>'' [] ''send'')"
    by (simp add: is_send_def)
  note t = send_only_through_gate
    [where config = default_config and dry_run = False and email_data = sample_email
       and an = confident_analysis and confidence = "Fin (9 / 10)" and a = reply_action
       and e = quiet_env and w = start_world and st = Completed and w' = sent_world
       and rules = "[reply_rule]" and envs = "\<lambda>i. quiet_env" and fe = quiet_env
       and ?st2.0 = Completed and ?w2.0 = sent_world]
  from n i have ex: "\<exists>c \<in> set (new_calls start_world sent_world). is_send c" by simp
  from n have rec: "RecordAction \<in> set (new_calls start_world sent_world)" by simp
  from t sent_run ex have c1:
    "fst (check_rate_limit default_config (check_now quiet_env) (check_write quiet_env) (safety start_world))"
    "determine_execution_mode default_config (Fin (9 / 10)) = ''send''"
    by blast+
  from t sent_run rec have c2: "transport quiet_env = Succeeds" by blast
  from t sent_email_run ex have c3:
    "fge (confidence_of confident_analysis) (min_confidence_for_auto_action default_config)"
    by blast
  from t sent_email_run have c4: "well_recorded (new_calls start_world sent_world)" by blast
  from sent_run n i c1 c2 sent_email_run c3 c4 show ?thesis by blast
qed

subsection \<open>The fallback\<close>

text \<open>
  C7. Once the loop over the actions of an email has completed, the review label is
  applied, or under dry run simulated, if and only if the confidence is strictly below
  the draft threshold and the loop recorded no action. When it is, a live run calls
  \<open>add_label\<close> with the configured label and a dry run makes no call, and
  \<open>LABEL_\<close> followed by the label is recorded as the one executed action (unless the
  live \<open>add_label\<close> raises, which ends the run); when it is not, nothing is called or
  recorded.
\<close>

theorem fallback_label_iff:
  assumes "process_actions config dry_run email_data an (confidence_of an) envs 0
             (evaluate rules (entries an)) (w\<lparr>executed_actions := []\<rparr>) = (Completed, w1)"
    and "process_email config dry_run rules email_data an envs fe w = (st, w2)"
  shows "(flt (confidence_of an) (min_confidence_for_draft config) \<and> executed_actions w1 = []
            \<longrightarrow> calls w2 = calls w1 @ (if dry_run then []
                     else [AddLabel (uid email_data) (Some (human_in_the_loop_label config))])
                \<and> safety w2 = safety w1
                \<and> (if \<not> dry_run \<and> transport fe = Raises
                    then st = Raised TransportError \<and> executed_actions w2 = []
                    else st = Completed
                         \<and> executed_actions w2 = [''LABEL_'' @ human_in_the_loop_label config]))
         \<and> (\<not> (flt (confidence_of an) (min_confidence_for_draft config) \<and> executed_actions w1 = [])
              \<longrightarrow> st = Completed \<and> w2 = w1)
         \<and> (st = Completed \<longrightarrow>
              (executed_actions w2 = executed_actions w1 @ [''LABEL_'' @ human_in_the_loop_label config]
                 \<longleftrightarrow> flt (confidence_of an) (min_confidence_for_draft config)
                       \<and> executed_actions w1 = []))"
proof -
  from assms have f: "fallback config dry_run email_data (confidence_of an) fe w1 = (st, w2)"
    by (simp add: process_email_def)
  show ?thesis
  proof (cases "flt (confidence_of an) (min_confidence_for_draft config) \<and> executed_actions w1 = []")
    case False
    with f have "st = Completed \<and> w2 = w1" by (auto simp: fallback_def split: if_splits)
    with False show ?thesis by simp
  next
    case True
    show ?thesis
    proof (cases dry_run)
      case d: True
      with f True
      have "st = Completed \<and> w2 = w1\<lparr>executed_actions :=
              executed_actions w1 @ [''LABEL_'' @ human_in_the_loop_label config]\<rparr>"
        by (auto simp: fallback_def Let_def)
      with True d show ?thesis by simp
    next
      case d: False
      show ?thesis
      proof (cases "transport fe = Raises")
        case r: True
        with f True d
        have "st = Raised TransportError \<and> w2 = w1\<lparr>calls := calls w1 @
                [AddLabel (uid email_data) (Some (human_in_the_loop_label config))]\<rparr>"
          by (auto simp: fallback_def Let_def)
        with True d r show ?thesis by simp
      next
        case r: False
        with f True d
        have "st = Completed \<and> w2 = w1\<lparr>calls := calls w1 @
                  [AddLabel (uid email_data) (Some (human_in_the_loop_label config))],
                executed_actions :=
                  executed_actions w1 @ [''LABEL_'' @ human_in_the_loop_label config]\<rparr>"
          by (cases "transport fe") (auto simp: fallback_def Let_def)
        with True d r show ?thesis by simp
      qed
    qed
  qed
qed

theorem fallback_label_iff_witness:
  "process_actions default_config False sample_email fallback_analysis (confidence_of fallback_analysis)
      (\<lambda>i. quiet_env) 0 (evaluate [] (entries fallback_analysis)) (start_world\<lparr>executed_actions := []\<rparr>)
      = (Completed, start_world)
   \<and> process_email default_config False [] sample_email fallback_analysis (\<lambda>i. quiet_env) quiet_env
        start_world = (Completed, labelled_world)
   \<and> flt (confidence_of fallback_analysis) (min_confidence_for_draft default_config)
   \<and> executed_actions start_world = []
   \<and> executed_actions labelled_world = executed_actions start_world @ [''LABEL_AI_REVIEW_NEEDED'']
   \<and> calls labelled_world = calls start_world @ [AddLabel ''42'' (Some ''AI_REVIEW_NEEDED'')]
   \<and> process_actions default_config False sample_email confident_analysis (confidence_of confident_analysis)
      (\<lambda>i. quiet_env) 0 (evaluate [reply_rule] (entries confident_analysis))
      (start_world\<lparr>executed_actions := []\<rparr>) = (Completed, sent_world)
   \<and> process_email default_config False [reply_rule] sample_email confident_analysis (\<lambda>i. quiet_env)
        quiet_env start_world = (Completed, sent_world)
   \<and> \<not> flt (confidence_of confident_analysis) (min_confidence_for_draft default_config)
   \<and> executed_actions sent_world \<noteq> executed_actions sent_world @ [''LABEL_AI_REVIEW_NEEDED'']"
proof -
  have a1: "process_actions default_config False sample_email fallback_analysis (confidence_of fallback_analysis)
      (\<lambda>i. quiet_env) 0 (evaluate [] (entries fallback_analysis)) (start_world\<lparr>executed_actions := []\<rparr>)
      = (Completed, start_world)"
    by (simp add: evaluate_def start_world_def)
  have e: "evaluate [reply_rule] (entries confident_analysis) = [reply_action]"
    by (simp add: evaluate_def rule_match_def reply_rule_def confident_analysis_def dict_get_def)
  have c: "confidence_of confident_analysis = Fin (9 / 10)"
    by (simp add: confidence_of_def confident_analysis_def)
  have s: "start_world\<lparr>executed_actions := []\<rparr> = start_world"
    by (simp add: start_world_def)
  have a2: "process_actions default_config False sample_email confident_analysis (confidence_of confident_analysis)
      (\<lambda>i. quiet_env) 0 (evaluate [reply_rule] (entries confident_analysis))
      (start_world\<lparr>executed_actions := []\<rparr>) = (Completed, sent_world)"
    by (simp add: e c s sent_run)
  have l: "flt (confidence_of fallback_analysis) (min_confidence_for_draft default_config)"
    "executed_actions start_world = []"
    by (simp_all add: confidence_of_def fallback_analysis_def default_config_def start_world_def)
  have h: "\<not> flt (confidence_of confident_analysis) (min_confidence_for_draft default_config)"
    by (simp add: c default_config_def)
  have lab: "human_in_the_loop_label default_config = ''AI_REVIEW_NEEDED''" "uid sample_email = ''42''"
    by (simp_all add: default_config_def sample_email_def)
  note t1 = fallback_label_iff [OF a1 labelled_run]
  note t2 = fallback_label_iff [OF a2 sent_email_run]
  from t1 l lab have c1:
    "executed_actions labelled_world = executed_actions start_world @ [''LABEL_AI_REVIEW_NEEDED'']"
    "calls labelled_world = calls start_world @ [AddLabel ''42'' (Some ''AI_REVIEW_NEEDED'')]"
    by simp_all
  from t2 h lab have c2:
    "executed_actions sent_world \<noteq> executed_actions sent_world @ [''LABEL_AI_REVIEW_NEEDED'']"
    by simp
  from a1 labelled_run l c1 a2 sent_email_run h c2 show ?thesis by blast
qed

subsection \<open>Dry runs\<close>

text \<open>In a dry run, processing an email makes no call: no mail is sent, drafted, labelled or
  archived, and nothing is recorded with the rate limiter.\<close>

lemma dry_run_dispatches_nothing:
  "process_email config True rules em an envs fe w = (st, w') \<Longrightarrow> calls w' = calls w"
  using process_email_calls [of config True rules em an envs fe w st w'] by auto

text \<open>
  In a dry run the loop over the actions always completes, makes no call, and every
  entry it records starts with \<open>DRY_RUN_\<close>.
\<close>

lemma handle_action_dry_run:
  assumes "handle_action config True em an conf a e w = (st, w')"
  shows "st = Completed \<and> calls w' = calls w
         \<and> (executed_actions w' = executed_actions w
             \<or> (\<exists>x. executed_actions w' = executed_actions w @ [''DRY_RUN_'' @ x]))"
proof -
  obtain m sl where v:
    "validate_action config (check_now e) (check_write e)
       (if action_type a = ''draft_reply'' then ''draft'' else ''send'') conf (safety w) = (m, sl)"
    by (cases "validate_action config (check_now e) (check_write e)
       (if action_type a = ''draft_reply'' then ''draft'' else ''send'') conf (safety w)")
  from assms v show ?thesis
    by (auto simp: handle_action_def Let_def split: if_splits)
qed

lemma process_actions_dry_run:
  "process_actions config True em an conf envs i acts w = (st, w') \<Longrightarrow>
   st = Completed \<and> calls w' = calls w
   \<and> (\<exists>new. executed_actions w' = executed_actions w @ new
          \<and> (\<forall>x \<in> set new. take 8 x = ''DRY_RUN_''))"
proof (induction acts arbitrary: i w)
  case Nil
  then show ?case by simp
next
  case (Cons a acts)
  obtain st1 w1 where h: "handle_action config True em an conf a (envs i) w = (st1, w1)"
    by (cases "handle_action config True em an conf a (envs i) w")
  from handle_action_dry_run [OF h] have s: "st1 = Completed" and c: "calls w1 = calls w"
    and x: "executed_actions w1 = executed_actions w
             \<or> (\<exists>x. executed_actions w1 = executed_actions w @ [''DRY_RUN_'' @ x])"
    by simp_all
  from x obtain new1 where n1: "executed_actions w1 = executed_actions w @ new1"
    and m1: "\<forall>x \<in> set new1. take 8 x = ''DRY_RUN_''"
    by auto
  from Cons.prems h s
  have "process_actions config True em an conf envs (Suc i) acts w1 = (st, w')" by simp
  from Cons.IH [OF this] obtain new2 where "st = Completed" "calls w' = calls w1"
    and n2: "executed_actions w' = executed_actions w1 @ new2"
    and m2: "\<forall>x \<in> set new2. take 8 x = ''DRY_RUN_''"
    by blast
  with c n1 m1 have "st = Completed \<and> calls w' = calls w
     \<and> executed_actions w' = executed_actions w @ (new1 @ new2)
     \<and> (\<forall>x \<in> set (new1 @ new2). take 8 x = ''DRY_RUN_'')"
    by auto
  then show ?case by blast
qed

text \<open>
  C9 does not hold of the fallback. In a dry run, the review label of the fallback is
  recorded as \<open>LABEL_AI_REVIEW_NEEDED\<close>, the very entry a live run records, with no
  marker of simulation; a label action with the same label is recorded as
  \<open>DRY_RUN_LABEL_AI_REVIEW_NEEDED\<close>.
\<close>

theorem dry_run_fallback_unmarked:
  "process_email default_config True [] sample_email fallback_analysis (\<lambda>i. quiet_env) quiet_env
     start_world = (Completed, start_world\<lparr>executed_actions := [''LABEL_AI_REVIEW_NEEDED'']\<rparr>)
   \<and> executed_actions (snd (process_email default_config False [] sample_email fallback_analysis
        (\<lambda>i. quiet_env) quiet_env start_world)) = [''LABEL_AI_REVIEW_NEEDED'']
   \<and> executed_actions (snd (handle_action default_config True sample_email fallback_analysis (Fin 0)
        review_label_action quiet_env start_world)) = [''DRY_RUN_LABEL_AI_REVIEW_NEEDED'']"
  by (simp add: process_email_def evaluate_def confidence_of_def fallback_def Let_def
        handle_action_def fmt_def review_label_action_def
        fallback_analysis_def default_config_def start_world_def
        sample_email_def quiet_env_def)

end
